theory Spec2Isabelle
  imports Complex_Main "HOL-Library.Product_Lexorder" "HOL-Library.Multiset"
begin

section \<open>Hospital rating ledger (hospital\_rating\_system.py)\<close>

text \<open>
  Python floats are modelled as reals, Python ints as \<open>int\<close>.  The built-in
  \<open>round(x)\<close> of Python 3 rounds to the nearest integer and resolves an exact
  half towards the even neighbour.  The float that the code passes to
  \<open>round\<close> can differ from the exact value by a rounding error and so fall on
  the other side of a half; statements about the value of a recomputed
  rating therefore allow for both neighbours of a tie.
\<close>

definition py_round :: "real \<Rightarrow> int" where
  "py_round x =
     (let f = \<lfloor>x\<rfloor>; d = x - of_int f
      in if d < 1 / 2 then f
         else if 1 / 2 < d then f + 1
         else if even f then f else f + 1)"

text \<open>\<open>round(x, 2)\<close>: rounding to two decimals.\<close>

definition py_round2 :: "real \<Rightarrow> real" where
  "py_round2 x = of_int (py_round (x * 100)) / 100"

record HospitalPerformance =
  hospital_name :: string
  total_cases :: int
  successful_outcomes :: int
  average_response_time_minutes :: real
  quality_score :: real
  current_rating :: real

definition calculate_new_rating :: "HospitalPerformance \<Rightarrow> real" where
  "calculate_new_rating p =
     (if total_cases p = 0 then 5 / 2
      else
        let success_rate = of_int (successful_outcomes p) / of_int (total_cases p);
            response_score = max 0 (min 100 (100 - (average_response_time_minutes p / 60) * 50));
            overall_score = success_rate * (40 / 100) + (quality_score p / 100) * (35 / 100)
                            + (response_score / 100) * (25 / 100);
            new_rating = overall_score * 5
        in of_int (py_round (new_rating * 2)) / 2)"

subsection \<open>The three tables\<close>

text \<open>
  A row of each table of \<open>init_database\<close>; the two timestamp columns are left
  out.  \<open>AUTOINCREMENT\<close> keys come from a per-table counter holding the largest
  key handed out so far.
\<close>

record hospital_row =
  h_id :: int
  h_name :: string
  h_address :: string
  h_latitude :: "real option"
  h_longitude :: "real option"
  h_phone :: string
  h_current_rating :: real
  h_total_cases :: int
  h_successful_outcomes :: int
  h_total_response_time_minutes :: real

record case_row =
  c_id :: int
  c_hospital_id :: int
  c_accident_id :: string
  c_patient_outcome :: string
  c_quality_score :: real
  c_response_time_minutes :: real
  c_treatment_quality_notes :: string

text \<open>
  The reason text of an automatic rating change is formatted from four numbers
  (cases, successes, average quality, average response time); the model keeps
  the numbers.
\<close>

datatype reason = Updated int int real real

record rating_row =
  r_id :: int
  r_hospital_id :: int
  r_old_rating :: real
  r_new_rating :: real
  r_reason :: reason

record db =
  hospitals :: "hospital_row list"
  case_history :: "case_row list"
  rating_history :: "rating_row list"
  seq_hospitals :: int
  seq_case_history :: int
  seq_rating_history :: int

definition init_database :: db where
  "init_database =
     \<lparr>hospitals = [], case_history = [], rating_history = [],
      seq_hospitals = 0, seq_case_history = 0, seq_rating_history = 0\<rparr>"

definition get_hospital_id :: "string \<Rightarrow> db \<Rightarrow> int option" where
  "get_hospital_id name d = map_option h_id (find (\<lambda>r. h_name r = name) (hospitals d))"

text \<open>
  \<open>INSERT OR IGNORE\<close>: the row is added unless the \<open>UNIQUE\<close> name is taken; the
  defaults of the schema fill the rating and the counters.  The statement
  takes its key from the \<open>AUTOINCREMENT\<close> counter before the name is checked,
  so an ignored insert leaves the rows alone and still advances the counter.
  The following \<open>SELECT\<close> returns the key of the row carrying the name.
\<close>

definition insert_or_ignore_hospital ::
  "string \<Rightarrow> string \<Rightarrow> real option \<Rightarrow> real option \<Rightarrow> string \<Rightarrow> db \<Rightarrow> db" where
  "insert_or_ignore_hospital name address latitude longitude phone d =
     (if find (\<lambda>r. h_name r = name) (hospitals d) \<noteq> None
      then d\<lparr>seq_hospitals := seq_hospitals d + 1\<rparr>
      else d\<lparr>hospitals := hospitals d @
                 [\<lparr>h_id = seq_hospitals d + 1, h_name = name, h_address = address,
                   h_latitude = latitude, h_longitude = longitude, h_phone = phone,
                   h_current_rating = 5 / 2, h_total_cases = 0,
                   h_successful_outcomes = 0, h_total_response_time_minutes = 0\<rparr>],
             seq_hospitals := seq_hospitals d + 1\<rparr>)"

definition register_hospital ::
  "string \<Rightarrow> string \<Rightarrow> real option \<Rightarrow> real option \<Rightarrow> string \<Rightarrow> db \<Rightarrow> int option \<times> db" where
  "register_hospital name address latitude longitude phone d =
     (let d' = insert_or_ignore_hospital name address latitude longitude phone d
      in (get_hospital_id name d', d'))"

subsection \<open>Recording an outcome\<close>

text \<open>
  The places at which \<open>record_case_outcome\<close> touches the database, in order:
  the lookup in \<open>get_hospital_id\<close>, the three statements of
  \<open>register_hospital\<close>, the \<open>sqlite3.connect\<close> of the transaction, and the
  statements inside the \<open>try\<close> block.  A persistence failure is the place at
  which SQLite raises; \<open>None\<close> is a run without failure.
\<close>

datatype stmt =
  SelectId | InsertHospital | SelectHospital | CommitHospital | Connect
  | InsertCase | UpdateStats | SelectStats | SelectAvg | UpdateRating | InsertRatingHistory | Commit

type_synonym fault = "stmt option"

text \<open>SQL \<open>AVG\<close>: \<open>NULL\<close> over no rows.\<close>

definition sql_avg :: "real list \<Rightarrow> real option" where
  "sql_avg xs = (if xs = [] then None else Some (sum_list xs / of_nat (length xs)))"

text \<open>Python's \<open>v if v else dflt\<close> on an optional float: \<open>None\<close> and \<open>0.0\<close> are both falsy.\<close>

definition or_default :: "real option \<Rightarrow> real \<Rightarrow> real" where
  "or_default v dflt = (case v of None \<Rightarrow> dflt | Some x \<Rightarrow> if x = 0 then dflt else x)"

text \<open>
  The performance object that \<open>_update_hospital_rating\<close> builds from the
  hospital's row and the two averages over its case history.
\<close>

definition performance_of :: "hospital_row \<Rightarrow> db \<Rightarrow> HospitalPerformance" where
  "performance_of row d =
     (let cases = filter (\<lambda>c. c_hospital_id c = h_id row) (case_history d);
          avg_quality = or_default (sql_avg (map c_quality_score cases)) 50;
          avg_response_time = or_default (sql_avg (map c_response_time_minutes cases)) 60
      in \<lparr>hospital_name = h_name row,
          total_cases = h_total_cases row,
          successful_outcomes = h_successful_outcomes row,
          average_response_time_minutes = avg_response_time,
          quality_score = avg_quality,
          current_rating = (if h_current_rating row = 0 then 5 / 2 else h_current_rating row)\<rparr>)"

definition update_hospital_rating :: "fault \<Rightarrow> int \<Rightarrow> db \<Rightarrow> stmt + db" where
  "update_hospital_rating f hospital_id d =
     (if f = Some SelectStats then Inl SelectStats
      else case find (\<lambda>r. h_id r = hospital_id) (hospitals d) of
        None \<Rightarrow> Inr d
      | Some row \<Rightarrow>
          if f = Some SelectAvg then Inl SelectAvg
          else
            let performance = performance_of row d;
                old_rating = h_current_rating row;
                new_rating = calculate_new_rating performance
            in if f = Some UpdateRating then Inl UpdateRating
               else
                 let d1 = d\<lparr>hospitals :=
                             map (\<lambda>r. if h_id r = hospital_id
                                      then r\<lparr>h_current_rating := new_rating\<rparr> else r)
                                 (hospitals d)\<rparr>
                 in if 1 / 10 \<le> \<bar>new_rating - old_rating\<bar>
                    then if f = Some InsertRatingHistory then Inl InsertRatingHistory
                         else Inr (d1\<lparr>rating_history := rating_history d1 @
                                       [\<lparr>r_id = seq_rating_history d1 + 1,
                                         r_hospital_id = hospital_id,
                                         r_old_rating = old_rating,
                                         r_new_rating = new_rating,
                                         r_reason = Updated (total_cases performance)
                                                      (successful_outcomes performance)
                                                      (quality_score performance)
                                                      (average_response_time_minutes performance)\<rparr>],
                                     seq_rating_history := seq_rating_history d1 + 1\<rparr>)
                    else Inr d1)"

text \<open>The body of the \<open>try\<close> block up to and including \<open>conn.commit()\<close>.\<close>

definition transaction ::
  "fault \<Rightarrow> int \<Rightarrow> string \<Rightarrow> string \<Rightarrow> real \<Rightarrow> real \<Rightarrow> string \<Rightarrow> db \<Rightarrow> stmt + db" where
  "transaction f hospital_id accident_id patient_outcome quality response_time notes d =
     (if f = Some InsertCase then Inl InsertCase
      else
        let d1 = d\<lparr>case_history := case_history d @
                     [\<lparr>c_id = seq_case_history d + 1, c_hospital_id = hospital_id,
                       c_accident_id = accident_id, c_patient_outcome = patient_outcome,
                       c_quality_score = quality, c_response_time_minutes = response_time,
                       c_treatment_quality_notes = notes\<rparr>],
                   seq_case_history := seq_case_history d + 1\<rparr>;
            is_successful = (if patient_outcome = ''successful'' then 1 else 0)
        in if f = Some UpdateStats then Inl UpdateStats
           else
             let d2 = d1\<lparr>hospitals :=
                          map (\<lambda>r. if h_id r = hospital_id
                                   then r\<lparr>h_total_cases := h_total_cases r + 1,
                                          h_successful_outcomes := h_successful_outcomes r + is_successful,
                                          h_total_response_time_minutes :=
                                            h_total_response_time_minutes r + response_time\<rparr>
                                   else r)
                              (hospitals d1)\<rparr>
             in case update_hospital_rating f hospital_id d2 of
                  Inl s \<Rightarrow> Inl s
                | Inr d3 \<Rightarrow> if f = Some Commit then Inl Commit else Inr d3)"

text \<open>Python truthiness of an optional key: \<open>None\<close> and \<open>0\<close> are falsy.\<close>

definition truthy :: "int option \<Rightarrow> bool" where
  "truthy v = (case v of None \<Rightarrow> False | Some i \<Rightarrow> i \<noteq> 0)"

text \<open>
  The call either returns a truth value or lets the exception of the failing
  place propagate.
\<close>

datatype returned = Returned bool | Propagated stmt

text \<open>
  Lookup and auto-registration run on connections of their own, outside the
  \<open>try\<close> block.  A failure there propagates; nothing of the failing connection
  is committed.  (The handler in \<open>register_hospital\<close> catches
  \<open>sqlite3.IntegrityError\<close> only, which \<open>INSERT OR IGNORE\<close> does not raise on a
  name that is taken; the failures meant here are of the other classes, such
  as a locked or unreadable database file.)  Without a failure an unknown name
  is registered and the registration is committed before the transaction
  starts.
\<close>

definition lookup_or_register :: "fault \<Rightarrow> string \<Rightarrow> db \<Rightarrow> (stmt + int option) \<times> db" where
  "lookup_or_register f name d =
     (if f = Some SelectId then (Inl SelectId, d)
      else if truthy (get_hospital_id name d) then (Inr (get_hospital_id name d), d)
      else if f = Some InsertHospital then (Inl InsertHospital, d)
      else if f = Some SelectHospital then (Inl SelectHospital, d)
      else if f = Some CommitHospital then (Inl CommitHospital, d)
      else (case register_hospital name [] None None [] d of (i, d') \<Rightarrow> (Inr i, d')))"

text \<open>
  \<open>conn.rollback()\<close> returns to the state the lookup and the registration
  left.
\<close>

definition record_case_outcome ::
  "fault \<Rightarrow> string \<Rightarrow> string \<Rightarrow> string \<Rightarrow> real \<Rightarrow> real \<Rightarrow> string \<Rightarrow> db \<Rightarrow> returned \<times> db" where
  "record_case_outcome f name accident_id patient_outcome quality response_time notes d =
     (case lookup_or_register f name d of
        (Inl s, d0) \<Rightarrow> (Propagated s, d0)
      | (Inr hospital_id, d0) \<Rightarrow>
          (case hospital_id of
             None \<Rightarrow> (Returned False, d0)
           | Some i \<Rightarrow>
               if i = 0 then (Returned False, d0)
               else if f = Some Connect then (Propagated Connect, d0)
               else (case transaction f i accident_id patient_outcome quality response_time notes d0 of
                       Inl s \<Rightarrow> (Returned False, d0)
                     | Inr d' \<Rightarrow> (Returned True, d'))))"

subsection \<open>Reading the ledger\<close>

record rating_info =
  ri_hospital_name :: string
  ri_address :: string
  ri_phone :: string
  ri_current_rating :: real
  ri_total_cases :: int
  ri_successful_outcomes :: int
  ri_success_rate_percent :: real
  ri_average_quality_score :: real
  ri_average_response_time_minutes :: real

definition get_hospital_rating :: "string \<Rightarrow> db \<Rightarrow> rating_info option" where
  "get_hospital_rating name d =
     (case find (\<lambda>r. h_name r = name) (hospitals d) of
        None \<Rightarrow> None
      | Some row \<Rightarrow>
          let cases = h_total_cases row;
              avg_quality = or_default
                 (sql_avg (map c_quality_score
                    (filter (\<lambda>c. c_hospital_id c = h_id row) (case_history d)))) 50;
              avg_response_time =
                 (if 0 < cases then h_total_response_time_minutes row / of_int cases else 0);
              success_rate =
                 (if 0 < cases then of_int (h_successful_outcomes row) / of_int cases * 100 else 0)
          in Some \<lparr>ri_hospital_name = h_name row,
                   ri_address = h_address row,
                   ri_phone = h_phone row,
                   ri_current_rating = h_current_rating row,
                   ri_total_cases = cases,
                   ri_successful_outcomes = h_successful_outcomes row,
                   ri_success_rate_percent = py_round2 success_rate,
                   ri_average_quality_score = py_round2 avg_quality,
                   ri_average_response_time_minutes = py_round2 avg_response_time\<rparr>)"

text \<open>SQL \<open>LIMIT n\<close>: a negative \<open>n\<close> means no limit.\<close>

definition sql_limit :: "int \<Rightarrow> 'a list \<Rightarrow> 'a list" where
  "sql_limit n xs = (if n < 0 then xs else take (nat n) xs)"

text \<open>
  \<open>WHERE total_cases > 0 ORDER BY current_rating DESC, total_cases DESC LIMIT ?\<close>.
  Rows equal in both sort keys are kept in table order.
\<close>

definition top_rows :: "int \<Rightarrow> db \<Rightarrow> hospital_row list" where
  "top_rows limit d =
     sql_limit limit
       (sort_key (\<lambda>r. (- h_current_rating r, - h_total_cases r))
          (filter (\<lambda>r. 0 < h_total_cases r) (hospitals d)))"

record top_entry =
  te_hospital_name :: string
  te_address :: string
  te_phone :: string
  te_current_rating :: real
  te_total_cases :: int
  te_success_rate_percent :: real
  te_average_response_time_minutes :: real

definition get_top_hospitals :: "int \<Rightarrow> db \<Rightarrow> top_entry list" where
  "get_top_hospitals limit d =
     map (\<lambda>row.
            let cases = h_total_cases row;
                avg_response_time =
                  (if 0 < cases then h_total_response_time_minutes row / of_int cases else 0);
                success_rate =
                  (if 0 < cases then of_int (h_successful_outcomes row) / of_int cases * 100 else 0)
            in \<lparr>te_hospital_name = h_name row,
                te_address = h_address row,
                te_phone = h_phone row,
                te_current_rating = h_current_rating row,
                te_total_cases = cases,
                te_success_rate_percent = py_round2 success_rate,
                te_average_response_time_minutes = py_round2 avg_response_time\<rparr>)
         (top_rows limit d)"

section \<open>Route finding (emergency\_route\_finder.py)\<close>

subsection \<open>The road graph\<close>

text \<open>
  The graph is a directed multigraph with integer node keys.  Nodes carry an
  attribute dictionary; an edge carries its optional \<open>length\<close> attribute.  Edges
  are listed in insertion order, so the first edge from \<open>u\<close> to \<open>v\<close> in the list
  is the one with key 0, which is the only one the search reads.
\<close>

type_synonym node = int

record edge =
  e_from :: node
  e_to :: node
  e_length :: "real option"

record graph =
  g_nodes :: "(node \<times> (string \<times> real) list) list"
  g_edges :: "edge list"

text \<open>Adding an edge adds its endpoints, so they are nodes as well.\<close>

definition has_node :: "graph \<Rightarrow> node \<Rightarrow> bool" where
  "has_node g n =
     (n \<in> set (map fst (g_nodes g)) \<or> n \<in> set (map e_from (g_edges g))
      \<or> n \<in> set (map e_to (g_edges g)))"

text \<open>The nodes of the graph, each once.\<close>

definition all_nodes :: "graph \<Rightarrow> node list" where
  "all_nodes g = remdups (map fst (g_nodes g) @ map e_from (g_edges g) @ map e_to (g_edges g))"

text \<open>Keys of a dictionary filled in the given order: first occurrences, in order.\<close>

definition first_seen :: "'a list \<Rightarrow> 'a list" where
  "first_seen xs = rev (remdups (rev xs))"

definition successors :: "graph \<Rightarrow> node \<Rightarrow> node list" where
  "successors g u = first_seen (map e_to (filter (\<lambda>e. e_from e = u) (g_edges g)))"

definition predecessors :: "graph \<Rightarrow> node \<Rightarrow> node list" where
  "predecessors g v = first_seen (map e_from (filter (\<lambda>e. e_to e = v) (g_edges g)))"

text \<open>\<open>graph[u][v][0].get('length', 1.0)\<close>, read only for an existing edge.\<close>

definition edge_weight :: "graph \<Rightarrow> node \<Rightarrow> node \<Rightarrow> real" where
  "edge_weight g u v =
     (case find (\<lambda>e. e_from e = u \<and> e_to e = v) (g_edges g) of
        None \<Rightarrow> 1
      | Some e \<Rightarrow> (case e_length e of None \<Rightarrow> 1 | Some w \<Rightarrow> w))"

subsection \<open>Bidirectional search\<close>

text \<open>
  The state of \<open>find_shortest_path\<close>.  A heap is the list of its entries;
  \<open>heappop\<close> takes out the least entry in the order of Python tuples (distance
  first, then node).  \<open>None\<close> as \<open>min_total_dist\<close> is \<open>float('inf')\<close>.
\<close>

record search =
  forward_dist :: "node \<rightharpoonup> real"
  forward_prev :: "node \<rightharpoonup> node option"
  forward_heap :: "(real \<times> node) list"
  forward_visited :: "node set"
  backward_dist :: "node \<rightharpoonup> real"
  backward_prev :: "node \<rightharpoonup> node option"
  backward_heap :: "(real \<times> node) list"
  backward_visited :: "node set"
  meeting_point :: "node option"
  min_total_dist :: "real option"

fun heappop :: "(real \<times> node) list \<Rightarrow> ((real \<times> node) \<times> (real \<times> node) list) option" where
  "heappop [] = None"
| "heappop (x # xs) = (let m = fold min xs x in Some (m, remove1 m (x # xs)))"

text \<open>\<open>total_dist < min_total_dist\<close>\<close>

definition improves :: "real \<Rightarrow> real option \<Rightarrow> bool" where
  "improves total_dist best = (case best of None \<Rightarrow> True | Some b \<Rightarrow> total_dist < b)"

text \<open>\<open>neighbor not in dist or new_dist < dist[neighbor]\<close>\<close>

definition shortens :: "real \<Rightarrow> real option \<Rightarrow> bool" where
  "shortens new_dist old = (case old of None \<Rightarrow> True | Some d \<Rightarrow> new_dist < d)"

definition meet :: "node \<Rightarrow> real \<Rightarrow> real option \<Rightarrow> search \<Rightarrow> search" where
  "meet n own other s =
     (case other of
        None \<Rightarrow> s
      | Some d \<Rightarrow>
          if improves (own + d) (min_total_dist s)
          then s\<lparr>min_total_dist := Some (own + d), meeting_point := Some n\<rparr>
          else s)"

text \<open>The body of \<open>for neighbor, edge_data in self.graph[node_f].items()\<close>.\<close>

definition relax_forward :: "graph \<Rightarrow> node \<Rightarrow> real \<Rightarrow> node \<Rightarrow> search \<Rightarrow> search" where
  "relax_forward g node_f dist_f neighbor s =
     (if neighbor \<in> forward_visited s then s
      else
        let new_dist = dist_f + edge_weight g node_f neighbor;
            s1 = (if shortens new_dist (forward_dist s neighbor)
                  then s\<lparr>forward_dist := (forward_dist s)(neighbor \<mapsto> new_dist),
                         forward_prev := (forward_prev s)(neighbor \<mapsto> Some node_f),
                         forward_heap := forward_heap s @ [(new_dist, neighbor)]\<rparr>
                  else s)
        in meet neighbor new_dist (backward_dist s1 neighbor) s1)"

text \<open>The body of \<open>for predecessor in self.graph.predecessors(node_b)\<close>.\<close>

definition relax_backward :: "graph \<Rightarrow> node \<Rightarrow> real \<Rightarrow> node \<Rightarrow> search \<Rightarrow> search" where
  "relax_backward g node_b dist_b predecessor s =
     (if predecessor \<in> backward_visited s then s
      else
        let new_dist = dist_b + edge_weight g predecessor node_b;
            s1 = (if shortens new_dist (backward_dist s predecessor)
                  then s\<lparr>backward_dist := (backward_dist s)(predecessor \<mapsto> new_dist),
                         backward_prev := (backward_prev s)(predecessor \<mapsto> Some node_b),
                         backward_heap := backward_heap s @ [(new_dist, predecessor)]\<rparr>
                  else s)
        in meet predecessor new_dist (forward_dist s1 predecessor) s1)"

text \<open>
  One direction's step of the \<open>while\<close> body ends in one of three ways: the
  \<open>continue\<close> statement, falling through to the rest of the body, or an
  exception of the graph library for a node that is not in the graph.
\<close>

datatype error = KeyError node | NetworkXError node

datatype step = Continue search | Proceed search | Raise error

definition forward_step :: "graph \<Rightarrow> search \<Rightarrow> step" where
  "forward_step g s =
     (case heappop (forward_heap s) of
        None \<Rightarrow> Proceed s
      | Some ((dist_f, node_f), rest) \<Rightarrow>
          let s0 = s\<lparr>forward_heap := rest\<rparr>
          in if node_f \<in> forward_visited s0 then Continue s0
             else
               let s1 = s0\<lparr>forward_visited := insert node_f (forward_visited s0)\<rparr>;
                   s2 = meet node_f dist_f (backward_dist s1 node_f) s1
               in if \<not> has_node g node_f then Raise (KeyError node_f)
                  else Proceed (fold (relax_forward g node_f dist_f) (successors g node_f) s2))"

definition backward_step :: "graph \<Rightarrow> search \<Rightarrow> step" where
  "backward_step g s =
     (case heappop (backward_heap s) of
        None \<Rightarrow> Proceed s
      | Some ((dist_b, node_b), rest) \<Rightarrow>
          let s0 = s\<lparr>backward_heap := rest\<rparr>
          in if node_b \<in> backward_visited s0 then Continue s0
             else
               let s1 = s0\<lparr>backward_visited := insert node_b (backward_visited s0)\<rparr>;
                   s2 = meet node_b dist_b (forward_dist s1 node_b) s1
               in if \<not> has_node g node_b then Raise (NetworkXError node_b)
                  else Proceed (fold (relax_backward g node_b dist_b) (predecessors g node_b) s2))"

text \<open>
  \<open>while node is not None: path.append(node); node = prev.get(node)\<close>.  The walk
  follows the predecessor entries for as long as there are any; \<open>None\<close> is a
  walk that does not end.
\<close>

partial_function (option) walk :: "(node \<rightharpoonup> node option) \<Rightarrow> node option \<Rightarrow> node list option" where
  "walk prev node =
     (case node of
        None \<Rightarrow> Some []
      | Some n \<Rightarrow>
          Option.bind (walk prev (case prev n of None \<Rightarrow> None | Some p \<Rightarrow> p))
            (\<lambda>rest. Some (n # rest)))"

datatype result = Path "node list" real | NoPathFound | Raised error

definition reconstruct :: "search \<Rightarrow> node \<Rightarrow> real \<Rightarrow> result option" where
  "reconstruct s m total_dist =
     Option.bind (walk (forward_prev s) (Some m)) (\<lambda>forward_path.
     Option.bind (walk (backward_prev s) (case backward_prev s m of None \<Rightarrow> None | Some p \<Rightarrow> p))
       (\<lambda>backward_path. Some (Path (rev forward_path @ backward_path) total_dist)))"

text \<open>
  \<open>if meeting_point and min_total_dist < float('inf')\<close>: a node key is truthy
  unless it is 0.
\<close>

definition found :: "search \<Rightarrow> (node \<times> real) option" where
  "found s =
     (case meeting_point s of
        None \<Rightarrow> None
      | Some m \<Rightarrow>
          if m = 0 then None
          else (case min_total_dist s of None \<Rightarrow> None | Some total_dist \<Rightarrow> Some (m, total_dist)))"

text \<open>
  The \<open>while\<close> loop.  It ends on every graph and state: a round either settles
  a node that was not settled before, or only drops a stale heap entry.  The
  measure counts, per direction, the nodes of the heap or the graph that are
  not settled, and then the heap entries.  The result is \<open>None\<close> only when the
  path reconstruction does not return.
\<close>

definition pending :: "graph \<Rightarrow> (real \<times> node) list \<Rightarrow> node set \<Rightarrow> nat" where
  "pending g heap visited = card ((snd ` set heap \<union> set (all_nodes g)) - visited)"

function search_loop :: "graph \<Rightarrow> search \<Rightarrow> result option" where
  "search_loop g s =
     (if forward_heap s = [] \<and> backward_heap s = [] then Some NoPathFound
      else
        (case forward_step g s of
           Raise e \<Rightarrow> Some (Raised e)
         | Continue s1 \<Rightarrow> search_loop g s1
         | Proceed s1 \<Rightarrow>
             (case backward_step g s1 of
                Raise e \<Rightarrow> Some (Raised e)
              | Continue s2 \<Rightarrow> search_loop g s2
              | Proceed s2 \<Rightarrow>
                  (case found s2 of
                     Some (m, total_dist) \<Rightarrow> reconstruct s2 m total_dist
                   | None \<Rightarrow> search_loop g s2))))"
  by pat_completeness auto
termination
proof -
  let ?A = "\<lambda>g s. pending g (forward_heap s) (forward_visited s)"
  let ?B = "\<lambda>g s. pending g (backward_heap s) (backward_visited s)"
  let ?L = "\<lambda>s. length (forward_heap s) + length (backward_heap s)"
  let ?R = "inv_image (less_than <*lex*> less_than) (\<lambda>(g, s). (?A g s + ?B g s, ?L s))"
  have popmin: "\<And>xs x. fold min xs x \<in> insert (x :: real \<times> node) (set xs)"
  proof -
    fix xs :: "(real \<times> node) list" and x
    show "fold min xs x \<in> insert x (set xs)"
      by (induction xs arbitrary: x) (auto simp: min_def)
  qed
  have pop: "\<And>h m rest. heappop h = Some (m, rest)
              \<Longrightarrow> m \<in> set h \<and> set rest \<subseteq> set h \<and> length rest < length h"
  proof -
    fix h m rest assume hp: "heappop h = Some (m, rest)"
    then obtain x xs where h: "h = x # xs" by (cases h) auto
    with hp have m: "m = fold min xs x" and rest: "rest = remove1 m h" by (auto simp: Let_def)
    from popmin[of xs x] m h have mem: "m \<in> set h" by simp
    moreover have "set rest \<subseteq> set h" unfolding rest by (rule set_remove1_subset)
    moreover have "length rest < length h"
    proof -
      have "length (remove1 m h) = length h - 1" using mem by (simp add: length_remove1)
      moreover have "0 < length h" using h by simp
      ultimately show ?thesis unfolding rest by linarith
    qed
    ultimately show "m \<in> set h \<and> set rest \<subseteq> set h \<and> length rest < length h" by simp
  qed
  have meet_keeps: "\<And>n own other s. forward_heap (meet n own other s) = forward_heap s
        \<and> forward_visited (meet n own other s) = forward_visited s
        \<and> backward_heap (meet n own other s) = backward_heap s
        \<and> backward_visited (meet n own other s) = backward_visited s"
    by (simp add: meet_def split: option.splits)
  have relax_f: "\<And>xs g u du s.
          forward_visited (fold (relax_forward g u du) xs s) = forward_visited s
        \<and> backward_heap (fold (relax_forward g u du) xs s) = backward_heap s
        \<and> backward_visited (fold (relax_forward g u du) xs s) = backward_visited s
        \<and> snd ` set (forward_heap (fold (relax_forward g u du) xs s))
            \<subseteq> snd ` set (forward_heap s) \<union> set xs"
  proof -
    fix xs g u du s
    have one: "\<And>n s. forward_visited (relax_forward g u du n s) = forward_visited s
        \<and> backward_heap (relax_forward g u du n s) = backward_heap s
        \<and> backward_visited (relax_forward g u du n s) = backward_visited s
        \<and> snd ` set (forward_heap (relax_forward g u du n s))
            \<subseteq> snd ` set (forward_heap s) \<union> {n}"
      by (auto simp: relax_forward_def Let_def meet_keeps)
    show "forward_visited (fold (relax_forward g u du) xs s) = forward_visited s
        \<and> backward_heap (fold (relax_forward g u du) xs s) = backward_heap s
        \<and> backward_visited (fold (relax_forward g u du) xs s) = backward_visited s
        \<and> snd ` set (forward_heap (fold (relax_forward g u du) xs s))
            \<subseteq> snd ` set (forward_heap s) \<union> set xs"
    proof (induction xs arbitrary: s)
      case Nil
      show ?case by simp
    next
      case (Cons n ns)
      note ih = Cons[of "relax_forward g u du n s"] and o = one[of n s]
      from ih have a: "snd ` set (forward_heap (fold (relax_forward g u du) ns (relax_forward g u du n s)))
            \<subseteq> snd ` set (forward_heap (relax_forward g u du n s)) \<union> set ns"
        by (elim conjE)
      from o have b: "snd ` set (forward_heap (relax_forward g u du n s))
            \<subseteq> snd ` set (forward_heap s) \<union> {n}"
        by (elim conjE)
      from a b have c: "snd ` set (forward_heap (fold (relax_forward g u du) ns (relax_forward g u du n s)))
            \<subseteq> snd ` set (forward_heap s) \<union> set (n # ns)"
        by auto
      from ih o have "forward_visited (fold (relax_forward g u du) (n # ns) s) = forward_visited s"
        by simp
      moreover from ih o have "backward_heap (fold (relax_forward g u du) (n # ns) s) = backward_heap s"
        by simp
      moreover from ih o have "backward_visited (fold (relax_forward g u du) (n # ns) s) = backward_visited s"
        by simp
      moreover from c have "snd ` set (forward_heap (fold (relax_forward g u du) (n # ns) s))
            \<subseteq> snd ` set (forward_heap s) \<union> set (n # ns)"
        by simp
      ultimately show ?case by (intro conjI)
    qed
  qed
  have relax_b: "\<And>xs g u du s.
          backward_visited (fold (relax_backward g u du) xs s) = backward_visited s
        \<and> forward_heap (fold (relax_backward g u du) xs s) = forward_heap s
        \<and> forward_visited (fold (relax_backward g u du) xs s) = forward_visited s
        \<and> snd ` set (backward_heap (fold (relax_backward g u du) xs s))
            \<subseteq> snd ` set (backward_heap s) \<union> set xs"
  proof -
    fix xs g u du s
    have one: "\<And>n s. backward_visited (relax_backward g u du n s) = backward_visited s
        \<and> forward_heap (relax_backward g u du n s) = forward_heap s
        \<and> forward_visited (relax_backward g u du n s) = forward_visited s
        \<and> snd ` set (backward_heap (relax_backward g u du n s))
            \<subseteq> snd ` set (backward_heap s) \<union> {n}"
      by (auto simp: relax_backward_def Let_def meet_keeps)
    show "backward_visited (fold (relax_backward g u du) xs s) = backward_visited s
        \<and> forward_heap (fold (relax_backward g u du) xs s) = forward_heap s
        \<and> forward_visited (fold (relax_backward g u du) xs s) = forward_visited s
        \<and> snd ` set (backward_heap (fold (relax_backward g u du) xs s))
            \<subseteq> snd ` set (backward_heap s) \<union> set xs"
    proof (induction xs arbitrary: s)
      case Nil
      show ?case by simp
    next
      case (Cons n ns)
      note ih = Cons[of "relax_backward g u du n s"] and o = one[of n s]
      from ih have a: "snd ` set (backward_heap (fold (relax_backward g u du) ns (relax_backward g u du n s)))
            \<subseteq> snd ` set (backward_heap (relax_backward g u du n s)) \<union> set ns"
        by (elim conjE)
      from o have b: "snd ` set (backward_heap (relax_backward g u du n s))
            \<subseteq> snd ` set (backward_heap s) \<union> {n}"
        by (elim conjE)
      from a b have c: "snd ` set (backward_heap (fold (relax_backward g u du) ns (relax_backward g u du n s)))
            \<subseteq> snd ` set (backward_heap s) \<union> set (n # ns)"
        by auto
      from ih o have "backward_visited (fold (relax_backward g u du) (n # ns) s) = backward_visited s"
        by simp
      moreover from ih o have "forward_heap (fold (relax_backward g u du) (n # ns) s) = forward_heap s"
        by simp
      moreover from ih o have "forward_visited (fold (relax_backward g u du) (n # ns) s) = forward_visited s"
        by simp
      moreover from c have "snd ` set (backward_heap (fold (relax_backward g u du) (n # ns) s))
            \<subseteq> snd ` set (backward_heap s) \<union> set (n # ns)"
        by simp
      ultimately show ?case by (intro conjI)
    qed
  qed
  have succ_nodes: "\<And>g u. set (successors g u) \<subseteq> set (all_nodes g)"
    by (auto simp: successors_def first_seen_def all_nodes_def)
  have pred_nodes: "\<And>g v. set (predecessors g v) \<subseteq> set (all_nodes g)"
    by (auto simp: predecessors_def first_seen_def all_nodes_def)
  have shrink: "\<And>g h h' v. snd ` set h' \<subseteq> snd ` set h \<union> set (all_nodes g)
                  \<Longrightarrow> pending g h' v \<le> pending g h v"
    unfolding pending_def by (intro card_mono) auto
  have settle: "\<And>g h h' v n. snd ` set h' \<subseteq> snd ` set h \<union> set (all_nodes g)
                  \<Longrightarrow> n \<in> snd ` set h \<Longrightarrow> n \<notin> v
                  \<Longrightarrow> pending g h' (insert n v) < pending g h v"
    unfolding pending_def by (intro psubset_card_mono) auto
  have f_continue: "\<And>g s s1. forward_step g s = Continue s1
        \<Longrightarrow> ?A g s1 \<le> ?A g s \<and> ?B g s1 = ?B g s \<and> ?L s1 < ?L s"
  proof -
    fix g s s1 assume st: "forward_step g s = Continue s1"
    then obtain m rest where hp: "heappop (forward_heap s) = Some (m, rest)"
      by (cases "heappop (forward_heap s)") (auto simp: forward_step_def)
    from st hp have s1: "s1 = s\<lparr>forward_heap := rest\<rparr>"
      by (cases m) (auto simp: forward_step_def Let_def split: if_splits)
    from pop[OF hp] have "snd ` set rest \<subseteq> snd ` set (forward_heap s) \<union> set (all_nodes g)"
      and "length rest < length (forward_heap s)" by auto
    with shrink[of rest "forward_heap s" g "forward_visited s"]
    show "?A g s1 \<le> ?A g s \<and> ?B g s1 = ?B g s \<and> ?L s1 < ?L s"
      unfolding s1 by simp
  qed
  have f_proceed: "\<And>g s s1. forward_step g s = Proceed s1
        \<Longrightarrow> (s1 = s \<and> forward_heap s = []) \<or> (?A g s1 < ?A g s \<and> ?B g s1 = ?B g s)"
  proof -
    fix g s s1 assume st: "forward_step g s = Proceed s1"
    show "(s1 = s \<and> forward_heap s = []) \<or> (?A g s1 < ?A g s \<and> ?B g s1 = ?B g s)"
    proof (cases "heappop (forward_heap s)")
      case None
      then have "forward_heap s = []" by (cases "forward_heap s") (auto simp: Let_def)
      with st None show ?thesis by (simp add: forward_step_def)
    next
      case (Some p)
      obtain d n rest where p: "p = ((d, n), rest)" by (cases p) auto
      let ?s2 = "meet n d (backward_dist (s\<lparr>forward_heap := rest,
                     forward_visited := insert n (forward_visited s)\<rparr>) n)
                   (s\<lparr>forward_heap := rest, forward_visited := insert n (forward_visited s)\<rparr>)"
      from st Some p have nv: "n \<notin> forward_visited s"
        and s1: "s1 = fold (relax_forward g n d) (successors g n) ?s2"
        by (auto simp: forward_step_def Let_def split: if_splits)
      from pop[OF Some[unfolded p]] have mem: "n \<in> snd ` set (forward_heap s)"
        and sub: "set rest \<subseteq> set (forward_heap s)" by force+
      note r = relax_f[of g n d "successors g n" ?s2]
      have fv: "forward_visited s1 = insert n (forward_visited s)"
        unfolding s1 using r by (simp add: meet_keeps)
      have bh: "backward_heap s1 = backward_heap s" "backward_visited s1 = backward_visited s"
        unfolding s1 using r by (simp_all add: meet_keeps)
      have "snd ` set (forward_heap s1) \<subseteq> snd ` set rest \<union> set (successors g n)"
        unfolding s1 using r by (simp add: meet_keeps)
      with sub succ_nodes[of g n]
      have "snd ` set (forward_heap s1) \<subseteq> snd ` set (forward_heap s) \<union> set (all_nodes g)"
        by blast
      from settle[OF this mem nv] fv bh show ?thesis by simp
    qed
  qed
  have b_continue: "\<And>g s s1. backward_step g s = Continue s1
        \<Longrightarrow> ?B g s1 \<le> ?B g s \<and> ?A g s1 = ?A g s \<and> ?L s1 < ?L s"
  proof -
    fix g s s1 assume st: "backward_step g s = Continue s1"
    then obtain m rest where hp: "heappop (backward_heap s) = Some (m, rest)"
      by (cases "heappop (backward_heap s)") (auto simp: backward_step_def)
    from st hp have s1: "s1 = s\<lparr>backward_heap := rest\<rparr>"
      by (cases m) (auto simp: backward_step_def Let_def split: if_splits)
    from pop[OF hp] have "snd ` set rest \<subseteq> snd ` set (backward_heap s) \<union> set (all_nodes g)"
      and "length rest < length (backward_heap s)" by auto
    with shrink[of rest "backward_heap s" g "backward_visited s"]
    show "?B g s1 \<le> ?B g s \<and> ?A g s1 = ?A g s \<and> ?L s1 < ?L s"
      unfolding s1 by simp
  qed
  have b_proceed: "\<And>g s s1. backward_step g s = Proceed s1
        \<Longrightarrow> (s1 = s \<and> backward_heap s = []) \<or> (?B g s1 < ?B g s \<and> ?A g s1 = ?A g s)"
  proof -
    fix g s s1 assume st: "backward_step g s = Proceed s1"
    show "(s1 = s \<and> backward_heap s = []) \<or> (?B g s1 < ?B g s \<and> ?A g s1 = ?A g s)"
    proof (cases "heappop (backward_heap s)")
      case None
      then have "backward_heap s = []" by (cases "backward_heap s") (auto simp: Let_def)
      with st None show ?thesis by (simp add: backward_step_def)
    next
      case (Some p)
      obtain d n rest where p: "p = ((d, n), rest)" by (cases p) auto
      let ?s2 = "meet n d (forward_dist (s\<lparr>backward_heap := rest,
                     backward_visited := insert n (backward_visited s)\<rparr>) n)
                   (s\<lparr>backward_heap := rest, backward_visited := insert n (backward_visited s)\<rparr>)"
      from st Some p have nv: "n \<notin> backward_visited s"
        and s1: "s1 = fold (relax_backward g n d) (predecessors g n) ?s2"
        by (auto simp: backward_step_def Let_def split: if_splits)
      from pop[OF Some[unfolded p]] have mem: "n \<in> snd ` set (backward_heap s)"
        and sub: "set rest \<subseteq> set (backward_heap s)" by force+
      note r = relax_b[of g n d "predecessors g n" ?s2]
      have bv: "backward_visited s1 = insert n (backward_visited s)"
        unfolding s1 using r by (simp add: meet_keeps)
      have fh: "forward_heap s1 = forward_heap s" "forward_visited s1 = forward_visited s"
        unfolding s1 using r by (simp_all add: meet_keeps)
      have "snd ` set (backward_heap s1) \<subseteq> snd ` set rest \<union> set (predecessors g n)"
        unfolding s1 using r by (simp add: meet_keeps)
      with sub pred_nodes[of g n]
      have "snd ` set (backward_heap s1) \<subseteq> snd ` set (backward_heap s) \<union> set (all_nodes g)"
        by blast
      from settle[OF this mem nv] bv fh show ?thesis by simp
    qed
  qed
  show ?thesis
  proof (relation ?R)
    show "wf ?R" by (intro wf_inv_image wf_lex_prod wf_less_than)
  next
    fix g s s1
    assume "forward_step g s = Continue s1"
    from f_continue[OF this] show "((g, s1), (g, s)) \<in> ?R" by auto
  next
    fix g s s1 s2
    assume "forward_step g s = Proceed s1" "backward_step g s1 = Continue s2"
    from f_proceed[OF this(1)] b_continue[OF this(2)]
    show "((g, s2), (g, s)) \<in> ?R" by auto
  next
    fix g s s1 s2
    assume ne: "\<not> (forward_heap s = [] \<and> backward_heap s = [])"
      and "forward_step g s = Proceed s1" "backward_step g s1 = Proceed s2"
    from f_proceed[OF this(2)] b_proceed[OF this(3)] ne
    show "((g, s2), (g, s)) \<in> ?R" by auto
  qed
qed

declare search_loop.simps [simp del]

definition initial_search :: "node \<Rightarrow> node \<Rightarrow> search" where
  "initial_search source target =
     \<lparr>forward_dist = [source \<mapsto> 0], forward_prev = [source \<mapsto> None],
      forward_heap = [(0, source)], forward_visited = {},
      backward_dist = [target \<mapsto> 0], backward_prev = [target \<mapsto> None],
      backward_heap = [(0, target)], backward_visited = {},
      meeting_point = None, min_total_dist = None\<rparr>"

definition find_shortest_path :: "graph \<Rightarrow> node \<Rightarrow> node \<Rightarrow> result option" where
  "find_shortest_path g source target =
     (if source = target then Some (Path [source] 0)
      else search_loop g (initial_search source target))"

subsection \<open>Great-circle distance\<close>

definition radians :: "real \<Rightarrow> real" where
  "radians x = x * pi / 180"

text \<open>\<open>math.atan2(y, x)\<close>\<close>

definition atan2 :: "real \<Rightarrow> real \<Rightarrow> real" where
  "atan2 y x =
     (if 0 < x then arctan (y / x)
      else if x < 0 then (if 0 \<le> y then arctan (y / x) + pi else arctan (y / x) - pi)
      else if 0 < y then pi / 2
      else if y < 0 then - (pi / 2)
      else 0)"

definition haversine_distance :: "real \<Rightarrow> real \<Rightarrow> real \<Rightarrow> real \<Rightarrow> real" where
  "haversine_distance lat1 lon1 lat2 lon2 =
     (let R = 6371;
          d_lat = radians (lat2 - lat1);
          d_lon = radians (lon2 - lon1);
          a = (sin (d_lat / 2))\<^sup>2
              + cos (radians lat1) * cos (radians lat2) * (sin (d_lon / 2))\<^sup>2;
          c = 2 * atan2 (sqrt a) (sqrt (1 - a))
      in R * c)"

subsection \<open>The road-network cache\<close>

text \<open>
  The cache key is the text \<open>f"{lat:.4f}_{lon:.4f}_{radius_m}"\<close>.  A number
  printed with four decimals is determined by its sign and its rounded
  ten-thousandths, so the key is modelled by these components.
\<close>

type_synonym cache_key = "(bool \<times> int) \<times> (bool \<times> int) \<times> int"

definition fixed4 :: "real \<Rightarrow> bool \<times> int" where
  "fixed4 x = (x < 0, py_round (\<bar>x\<bar> * 10000))"

definition cache_key :: "real \<Rightarrow> real \<Rightarrow> int \<Rightarrow> cache_key" where
  "cache_key center_lat center_lon radius_m = (fixed4 center_lat, fixed4 center_lon, radius_m)"

text \<open>
  The graph provider (\<open>ox.graph_from_point\<close>) is a parameter; \<open>None\<close> is a call
  that raises.  \<open>get_road_network\<close> returns \<open>None\<close> for an unavailable network,
  together with the cache it leaves.
\<close>

type_synonym provider = "real \<Rightarrow> real \<Rightarrow> int \<Rightarrow> graph option"

definition get_road_network ::
  "provider \<Rightarrow> (cache_key \<rightharpoonup> graph) \<Rightarrow> real \<Rightarrow> real \<Rightarrow> int
   \<Rightarrow> graph option \<times> (cache_key \<rightharpoonup> graph)" where
  "get_road_network graph_from_point graph_cache center_lat center_lon radius_m =
     (case graph_cache (cache_key center_lat center_lon radius_m) of
        Some G \<Rightarrow> (Some G, graph_cache)
      | None \<Rightarrow>
          (case graph_from_point center_lat center_lon radius_m of
             Some G \<Rightarrow> (Some G, graph_cache(cache_key center_lat center_lon radius_m \<mapsto> G))
           | None \<Rightarrow> (None, graph_cache)))"

subsection \<open>Routes\<close>

record point =
  pt_lat :: real
  pt_lon :: real

text \<open>
  The dictionary of a successful route.  Fast mode sets \<open>fast_mode\<close> and has no
  node keys; routed mode has the two node keys and no \<open>fast_mode\<close> entry.
\<close>

record route_info =
  path_nodes :: "node list"
  path_coordinates :: "point list"
  distance_km :: real
  distance_m :: real
  hospital_coords :: point
  accident_coords :: point
  fast_mode :: bool
  hospital_node :: "node option"
  accident_node :: "node option"

datatype route_failure = CouldNotFindNodes | NoRouteFound

datatype route = RouteFound route_info | RouteFailed route_failure | RouteRaised error

definition fast_route :: "real \<Rightarrow> real \<Rightarrow> real \<Rightarrow> real \<Rightarrow> route_info" where
  "fast_route accident_lat accident_lon hospital_lat hospital_lon =
     (let straight_distance = haversine_distance accident_lat accident_lon hospital_lat hospital_lon
      in \<lparr>path_nodes = [],
          path_coordinates = [\<lparr>pt_lat = hospital_lat, pt_lon = hospital_lon\<rparr>,
                              \<lparr>pt_lat = accident_lat, pt_lon = accident_lon\<rparr>],
          distance_km = straight_distance,
          distance_m = straight_distance * 1000,
          hospital_coords = \<lparr>pt_lat = hospital_lat, pt_lon = hospital_lon\<rparr>,
          accident_coords = \<lparr>pt_lat = accident_lat, pt_lon = accident_lon\<rparr>,
          fast_mode = True,
          hospital_node = None,
          accident_node = None\<rparr>)"

text \<open>\<open>node_data.get('y', node_data.get('lat', 0))\<close> and the same for \<open>x\<close> and \<open>lon\<close>.\<close>

definition node_point :: "graph \<Rightarrow> node \<Rightarrow> point" where
  "node_point g n =
     (let node_data = map_of (case map_of (g_nodes g) n of None \<Rightarrow> [] | Some attrs \<Rightarrow> attrs);
          get = (\<lambda>k1 k2. case node_data k1 of
                            Some v \<Rightarrow> v
                          | None \<Rightarrow> (case node_data k2 of Some v \<Rightarrow> v | None \<Rightarrow> 0))
      in \<lparr>pt_lat = get ''y'' ''lat'', pt_lon = get ''x'' ''lon''\<rparr>)"

text \<open>
  \<open>ox.distance.nearest_nodes(G, X, Y)\<close> is a parameter; \<open>None\<close> is a call that
  raises.  The result is \<open>None\<close> when the path reconstruction does not return.
\<close>

type_synonym locator = "graph \<Rightarrow> real \<Rightarrow> real \<Rightarrow> node option"

definition find_optimal_hospital_route ::
  "provider \<Rightarrow> locator \<Rightarrow> (cache_key \<rightharpoonup> graph) \<Rightarrow> real \<Rightarrow> real \<Rightarrow> real \<Rightarrow> real \<Rightarrow> int \<Rightarrow> bool
   \<Rightarrow> route option \<times> (cache_key \<rightharpoonup> graph)" where
  "find_optimal_hospital_route graph_from_point nearest_nodes graph_cache
       accident_lat accident_lon hospital_lat hospital_lon radius_m fast =
     (if fast
      then (Some (RouteFound (fast_route accident_lat accident_lon hospital_lat hospital_lon)),
            graph_cache)
      else
        let center_lat = (accident_lat + hospital_lat) / 2;
            center_lon = (accident_lon + hospital_lon) / 2
        in case get_road_network graph_from_point graph_cache center_lat center_lon radius_m of
             (None, graph_cache') \<Rightarrow>
               (Some (RouteFound (fast_route accident_lat accident_lon hospital_lat hospital_lon)),
                graph_cache')
           | (Some G, graph_cache') \<Rightarrow>
               (case nearest_nodes G accident_lon accident_lat of
                  None \<Rightarrow> (Some (RouteFailed CouldNotFindNodes), graph_cache')
                | Some accident_n \<Rightarrow>
                    (case nearest_nodes G hospital_lon hospital_lat of
                       None \<Rightarrow> (Some (RouteFailed CouldNotFindNodes), graph_cache')
                     | Some hospital_n \<Rightarrow>
                         (case find_shortest_path G hospital_n accident_n of
                            None \<Rightarrow> (None, graph_cache')
                          | Some (Raised e) \<Rightarrow> (Some (RouteRaised e), graph_cache')
                          | Some NoPathFound \<Rightarrow> (Some (RouteFailed NoRouteFound), graph_cache')
                          | Some (Path path dist_m) \<Rightarrow>
                              (Some (RouteFound
                                 \<lparr>path_nodes = path,
                                  path_coordinates = map (node_point G) path,
                                  distance_km = dist_m / 1000,
                                  distance_m = dist_m,
                                  hospital_coords = \<lparr>pt_lat = hospital_lat, pt_lon = hospital_lon\<rparr>,
                                  accident_coords = \<lparr>pt_lat = accident_lat, pt_lon = accident_lon\<rparr>,
                                  fast_mode = False,
                                  hospital_node = Some hospital_n,
                                  accident_node = Some accident_n\<rparr>),
                               graph_cache')))))"

subsection \<open>Reference: single-source Dijkstra and path lengths\<close>

text \<open>
  The textbook single-source algorithm with which the bidirectional search is
  compared: settle the unsettled node of least tentative distance, relax its
  outgoing edges, and repeat once per node.  \<open>None\<close> is an unreachable target.
\<close>

definition edge_len :: "edge \<Rightarrow> real" where
  "edge_len e = (case e_length e of None \<Rightarrow> 1 | Some w \<Rightarrow> w)"

definition nearer :: "(node \<rightharpoonup> real) \<Rightarrow> node \<Rightarrow> node \<Rightarrow> node" where
  "nearer tentative a b =
     (case (tentative a, tentative b) of
        (Some x, Some y) \<Rightarrow> if x < y then a else b
      | _ \<Rightarrow> b)"

definition tentative_min :: "(node \<rightharpoonup> real) \<Rightarrow> node list \<Rightarrow> node option" where
  "tentative_min tentative unsettled =
     (case filter (\<lambda>n. tentative n \<noteq> None) unsettled of
        [] \<Rightarrow> None
      | n # ns \<Rightarrow> Some (fold (nearer tentative) ns n))"

definition relax_edge :: "node \<Rightarrow> real \<Rightarrow> edge \<Rightarrow> (node \<rightharpoonup> real) \<Rightarrow> (node \<rightharpoonup> real)" where
  "relax_edge u du e tentative =
     (if e_from e = u \<and> shortens (du + edge_len e) (tentative (e_to e))
      then tentative(e_to e \<mapsto> du + edge_len e) else tentative)"

fun dijkstra_rounds :: "nat \<Rightarrow> graph \<Rightarrow> (node \<rightharpoonup> real) \<Rightarrow> node list \<Rightarrow> (node \<rightharpoonup> real)" where
  "dijkstra_rounds 0 g tentative unsettled = tentative"
| "dijkstra_rounds (Suc k) g tentative unsettled =
     (case tentative_min tentative unsettled of
        None \<Rightarrow> tentative
      | Some u \<Rightarrow>
          (case tentative u of
             None \<Rightarrow> tentative
           | Some du \<Rightarrow>
               dijkstra_rounds k g (fold (relax_edge u du) (g_edges g) tentative) (remove1 u unsettled)))"

definition reference_dijkstra :: "graph \<Rightarrow> node \<Rightarrow> node \<Rightarrow> real option" where
  "reference_dijkstra g source target =
     dijkstra_rounds (length (all_nodes g)) g [source \<mapsto> 0] (all_nodes g) target"

text \<open>The length of a walk along existing edges; \<open>None\<close> if some hop has no edge.\<close>

fun path_length :: "graph \<Rightarrow> node list \<Rightarrow> real option" where
  "path_length g [] = None"
| "path_length g [n] = (if has_node g n then Some 0 else None)"
| "path_length g (u # v # rest) =
     (if v \<in> set (successors g u)
      then map_option ((+) (edge_weight g u v)) (path_length g (v # rest))
      else None)"

text \<open>
  A four-node graph with a long direct edge and a short detour, and a
  three-node chain through the node with key 0.
\<close>

definition detour :: graph where
  "detour =
     \<lparr>g_nodes = [(1, []), (2, []), (3, []), (4, [])],
      g_edges = [\<lparr>e_from = 1, e_to = 4, e_length = Some 10\<rparr>,
                 \<lparr>e_from = 1, e_to = 2, e_length = Some 1\<rparr>,
                 \<lparr>e_from = 2, e_to = 3, e_length = Some 1\<rparr>,
                 \<lparr>e_from = 3, e_to = 4, e_length = Some 1\<rparr>]\<rparr>"

definition chain :: graph where
  "chain =
     \<lparr>g_nodes = [(1, []), (0, []), (2, [])],
      g_edges = [\<lparr>e_from = 1, e_to = 0, e_length = Some 1\<rparr>,
                 \<lparr>e_from = 0, e_to = 2, e_length = Some 1\<rparr>]\<rparr>"

text \<open>A provider that always fails and a locator that always fails.\<close>

definition no_network :: provider where
  "no_network center_lat center_lon radius_m = None"

definition no_locator :: locator where
  "no_locator G x y = None"

section \<open>Dispatch (emergency\_response\_system.py)\<close>

text \<open>
  The entries returned by \<open>find_nearest_hospitals_with_routes\<close>: a hospital with
  its route, a hospital whose routing failed, or the single entry reporting
  that the dataset could not be used.  Only the first kind has a truthy
  \<open>route_success\<close>.
\<close>

record routed_hospital =
  rh_hospital_name :: string
  rh_hospital_address :: string
  rh_hospital_phone :: string
  rh_hospital_lat :: real
  rh_hospital_lon :: real
  rh_straight_distance_km :: real
  rh_route_distance_km :: real
  rh_route_distance_m :: real
  rh_route_coordinates :: "point list"

record unrouted_hospital =
  uh_hospital_name :: string
  uh_hospital_address :: string
  uh_hospital_phone :: string
  uh_hospital_lat :: real
  uh_hospital_lon :: real
  uh_straight_distance_km :: real
  uh_route_error :: string

datatype entry = WithRoute routed_hospital | WithoutRoute unrouted_hospital | DatasetError string

fun with_route :: "entry \<Rightarrow> routed_hospital option" where
  "with_route (WithRoute h) = Some h"
| "with_route (WithoutRoute u) = None"
| "with_route (DatasetError e) = None"

text \<open>
  \<open>[h for h in hospitals if h.get("route_success")]\<close> followed by the stable
  \<open>sort\<close> on the route distance.
\<close>

definition hospitals_with_routes :: "entry list \<Rightarrow> routed_hospital list" where
  "hospitals_with_routes entries =
     sort_key rh_route_distance_km (List.map_filter with_route entries)"

text \<open>
  The optional bonus read from the dataset (0.1 for ICU availability plus 0.05
  for high readiness) is a parameter of the model; it is only consulted when
  \<open>use_t_nagar_24x7\<close> is set.  The score is computed in floating point and
  compared with \<open>>\<close>, so the rounding of an exact result to the float that
  stands for it is a parameter as well: \<open>rounding\<close> is applied to every
  decimal constant and to the result of every arithmetic operation.
\<close>

record config =
  use_t_nagar_24x7 :: bool
  dataset_extra :: "string \<Rightarrow> real"
  rounding :: "real \<Rightarrow> real"

definition extra_of :: "config \<Rightarrow> string \<Rightarrow> real" where
  "extra_of cfg name = (if use_t_nagar_24x7 cfg then dataset_extra cfg name else 0)"

datatype py_error = ZeroDivisionError

text \<open>
  The rating lookup of one loop iteration, registering an unknown hospital
  first.
\<close>

definition rating_of_candidate :: "routed_hospital \<Rightarrow> db \<Rightarrow> rating_info option \<times> db" where
  "rating_of_candidate hospital d =
     (case get_hospital_rating (rh_hospital_name hospital) d of
        Some info \<Rightarrow> (Some info, d)
      | None \<Rightarrow>
          let d' = snd (register_hospital (rh_hospital_name hospital)
                          (rh_hospital_address hospital) (Some (rh_hospital_lat hospital))
                          (Some (rh_hospital_lon hospital)) (rh_hospital_phone hospital) d)
          in (get_hospital_rating (rh_hospital_name hospital) d', d'))"

definition combined_score :: "config \<Rightarrow> routed_hospital \<Rightarrow> rating_info option \<Rightarrow> py_error + real" where
  "combined_score cfg hospital info =
     (let fl = rounding cfg;
          denominator = fl (rh_route_distance_km hospital + fl (1 / 10))
      in if denominator = 0 then Inl ZeroDivisionError
         else
           let route_score = fl (1 / denominator);
               rating_score = (case info of
                                 Some i \<Rightarrow> fl (ri_current_rating i / 5)
                               | None \<Rightarrow> 1 / 2);
               extra = extra_of cfg (rh_hospital_name hospital)
           in Inr (fl (fl (fl (route_score * fl (55 / 100)) + fl (rating_score * fl (35 / 100)))
                       + extra)))"

text \<open>
  The selection loop.  The candidates carry their position in
  \<open>hospitals_with_routes\<close>, which identifies the dictionary that
  \<open>best_hospital\<close> refers to; the rating information attached to it is kept
  alongside.
\<close>

record best =
  best_index :: nat
  best_hospital :: routed_hospital
  best_rating_info :: "rating_info option"

fun select_best ::
  "config \<Rightarrow> (nat \<times> routed_hospital) list \<Rightarrow> best option \<Rightarrow> real \<Rightarrow> db
   \<Rightarrow> (py_error + best option \<times> real) \<times> db" where
  "select_best cfg [] b best_score d = (Inr (b, best_score), d)"
| "select_best cfg ((i, hospital) # rest) b best_score d =
     (case rating_of_candidate hospital d of
        (info, d') \<Rightarrow>
          (case combined_score cfg hospital info of
             Inl e \<Rightarrow> (Inl e, d')
           | Inr score \<Rightarrow>
               if best_score < score
               then select_best cfg rest
                      (Some \<lparr>best_index = i, best_hospital = hospital, best_rating_info = info\<rparr>)
                      score d'
               else select_best cfg rest b best_score d'))"

record selected_hospital =
  sh_name :: string
  sh_address :: string
  sh_phone :: string
  sh_latitude :: real
  sh_longitude :: real
  sh_star_rating :: real
  sh_total_cases :: int

record alternative =
  alt_name :: string
  alt_distance_km :: real
  alt_rating :: real

record response =
  resp_accident_id :: string
  resp_accident_location :: point
  resp_selected_hospital :: selected_hospital
  resp_route_distance_km :: real
  resp_route_distance_m :: real
  resp_route_coordinates :: "point list"
  resp_alternative_hospitals :: "alternative list"

datatype dispatch = Dispatched response | NoHospitals string | Failed py_error

definition alternative_of :: "db \<Rightarrow> routed_hospital \<Rightarrow> alternative" where
  "alternative_of d h =
     \<lparr>alt_name = rh_hospital_name h,
      alt_distance_km = rh_route_distance_km h,
      alt_rating = (case get_hospital_rating (rh_hospital_name h) d of
                      Some info \<Rightarrow> ri_current_rating info
                    | None \<Rightarrow> 5 / 2)\<rparr>"

text \<open>
  \<open>handle_accident\<close> from the list \<open>hospitals\<close> of entries on; the map file and the JSON
  report it writes are left out, and the accident identifier is an argument.
\<close>

definition handle_accident ::
  "config \<Rightarrow> entry list \<Rightarrow> real \<Rightarrow> real \<Rightarrow> string \<Rightarrow> db \<Rightarrow> dispatch \<times> db" where
  "handle_accident cfg entries accident_lat accident_lon accident_id d =
     (let routed = hospitals_with_routes entries
      in if routed = [] then (NoHospitals accident_id, d)
         else
           (case select_best cfg (zip [0..<length (take 5 routed)] (take 5 routed)) None (- 1) d of
              (Inl e, d') \<Rightarrow> (Failed e, d')
            | (Inr (b, best_score), d') \<Rightarrow>
                let chosen = (case b of
                                Some x \<Rightarrow> x
                              | None \<Rightarrow> \<lparr>best_index = 0, best_hospital = hd routed,
                                          best_rating_info = None\<rparr>);
                    h = best_hospital chosen
                in (Dispatched
                      \<lparr>resp_accident_id = accident_id,
                       resp_accident_location = \<lparr>pt_lat = accident_lat, pt_lon = accident_lon\<rparr>,
                       resp_selected_hospital =
                         \<lparr>sh_name = rh_hospital_name h,
                          sh_address = rh_hospital_address h,
                          sh_phone = rh_hospital_phone h,
                          sh_latitude = rh_hospital_lat h,
                          sh_longitude = rh_hospital_lon h,
                          sh_star_rating = (case best_rating_info chosen of
                                              Some info \<Rightarrow> ri_current_rating info
                                            | None \<Rightarrow> 5 / 2),
                          sh_total_cases = (case best_rating_info chosen of
                                              Some info \<Rightarrow> ri_total_cases info
                                            | None \<Rightarrow> 0)\<rparr>,
                       resp_route_distance_km = rh_route_distance_km h,
                       resp_route_distance_m = rh_route_distance_m h,
                       resp_route_coordinates = rh_route_coordinates h,
                       resp_alternative_hospitals =
                         map (alternative_of d') (take 2 (drop 1 routed))\<rparr>,
                    d')))"

section \<open>Predicates used in the statements\<close>

text \<open>The half-star scale \<open>{0, 0.5, 1.0, ..., 5.0}\<close>.\<close>

definition half_star :: "real \<Rightarrow> bool" where
  "half_star x = (x \<in> {0, 1/2, 1, 3/2, 2, 5/2, 3, 7/2, 4, 9/2, 5})"

text \<open>
  What the schema guarantees of the \<open>hospitals\<close> table: names are \<open>UNIQUE\<close>, keys
  are a \<open>PRIMARY KEY\<close>, and \<open>AUTOINCREMENT\<close> keys are positive and bounded by the
  table's counter, which starts at zero.
\<close>

definition wf_db :: "db \<Rightarrow> bool" where
  "wf_db d =
     (distinct (map h_name (hospitals d)) \<and> distinct (map h_id (hospitals d))
      \<and> 0 \<le> seq_hospitals d
      \<and> list_all (\<lambda>r. 0 < h_id r \<and> h_id r \<le> seq_hospitals d) (hospitals d))"

text \<open>
  The invariant of the ledger: ratings on the half-star scale, successes
  between zero and the number of cases, recorded quality scores in \<open>[0, 100]\<close>.
\<close>

definition ledger_inv :: "db \<Rightarrow> bool" where
  "ledger_inv d =
     (list_all (\<lambda>r. half_star (h_current_rating r) \<and> 0 \<le> h_successful_outcomes r
                    \<and> h_successful_outcomes r \<le> h_total_cases r) (hospitals d)
      \<and> list_all (\<lambda>c. 0 \<le> c_quality_score c \<and> c_quality_score c \<le> 100) (case_history d))"

text \<open>
  The rating formula in the words of the specification: the overall score of
  a facility from its successes, its cases, its average quality and its average
  response time.
\<close>

definition overall_score :: "int \<Rightarrow> int \<Rightarrow> real \<Rightarrow> real \<Rightarrow> real" where
  "overall_score successes cases avg_quality avg_minutes =
     (of_int successes / of_int cases) * (40 / 100)
     + (avg_quality / 100) * (35 / 100)
     + (max 0 (min 100 (100 - (avg_minutes / 60) * 50)) / 100) * (25 / 100)"




text \<open>One \<open>record_case_outcome\<close> call with its arguments and the failure it meets.\<close>

record outcome_call =
  oc_fault :: fault
  oc_name :: string
  oc_accident_id :: string
  oc_outcome :: string
  oc_quality :: real
  oc_response :: real
  oc_notes :: string

definition run_call :: "outcome_call \<Rightarrow> db \<Rightarrow> db" where
  "run_call c d =
     snd (record_case_outcome (oc_fault c) (oc_name c) (oc_accident_id c) (oc_outcome c)
            (oc_quality c) (oc_response c) (oc_notes c) d)"

text \<open>The preconditions of a call: quality in \<open>[0, 100]\<close>, response time not negative.\<close>

definition call_ok :: "outcome_call \<Rightarrow> bool" where
  "call_ok c = (0 \<le> oc_quality c \<and> oc_quality c \<le> 100 \<and> 0 \<le> oc_response c)"

text \<open>
  The order of \<open>get_top_hospitals\<close>: a higher rating first, and among equal
  ratings the larger number of cases first.
\<close>

definition ranks_before :: "hospital_row \<Rightarrow> hospital_row \<Rightarrow> bool" where
  "ranks_before r1 r2 =
     (h_current_rating r2 < h_current_rating r1
      \<or> (h_current_rating r1 = h_current_rating r2 \<and> h_total_cases r2 \<le> h_total_cases r1))"

text \<open>The ledger of the scenario: A (4.5, 10 cases), B (4.5, 3 cases), C (3.0, 50 cases).\<close>

definition top_example :: db where
  "top_example =
     \<lparr>hospitals =
        [\<lparr>h_id = 1, h_name = ''C'', h_address = [], h_latitude = None, h_longitude = None,
          h_phone = [], h_current_rating = 3, h_total_cases = 50,
          h_successful_outcomes = 30, h_total_response_time_minutes = 1500\<rparr>,
         \<lparr>h_id = 2, h_name = ''B'', h_address = [], h_latitude = None, h_longitude = None,
          h_phone = [], h_current_rating = 9 / 2, h_total_cases = 3,
          h_successful_outcomes = 3, h_total_response_time_minutes = 30\<rparr>,
         \<lparr>h_id = 3, h_name = ''A'', h_address = [], h_latitude = None, h_longitude = None,
          h_phone = [], h_current_rating = 9 / 2, h_total_cases = 10,
          h_successful_outcomes = 9, h_total_response_time_minutes = 100\<rparr>],
      case_history = [], rating_history = [],
      seq_hospitals = 3, seq_case_history = 0, seq_rating_history = 0\<rparr>"

text \<open>
  The rating that the selection loop reads for a hospital name: the stored
  rating, or the 2.5 of the registration the loop performs for an unknown
  name.
\<close>

definition stored_rating :: "db \<Rightarrow> string \<Rightarrow> real" where
  "stored_rating d name =
     (case find (\<lambda>r. h_name r = name) (hospitals d) of
        Some row \<Rightarrow> h_current_rating row
      | None \<Rightarrow> 5 / 2)"

text \<open>
  The score of the specification, 0.55 / (km + 0.1) + 0.35 * rating / 5 +
  extras, as the floating-point computation of the configuration yields it.
\<close>

definition score_in :: "config \<Rightarrow> db \<Rightarrow> routed_hospital \<Rightarrow> real" where
  "score_in cfg d h =
     rounding cfg
       (rounding cfg
          (rounding cfg
             (rounding cfg (1 / rounding cfg (rh_route_distance_km h + rounding cfg (1 / 10)))
              * rounding cfg (55 / 100))
           + rounding cfg
               (rounding cfg (stored_rating d (rh_hospital_name h) / 5) * rounding cfg (35 / 100)))
        + extra_of cfg (rh_hospital_name h))"

text \<open>The position of the selected hospital among the routed candidates.\<close>

definition selected_index :: "config \<Rightarrow> entry list \<Rightarrow> db \<Rightarrow> nat option" where
  "selected_index cfg entries d =
     (let routed = hospitals_with_routes entries
      in case select_best cfg (zip [0..<length (take 5 routed)] (take 5 routed)) None (- 1) d of
           (Inl e, d') \<Rightarrow> None
         | (Inr (b, best_score), d') \<Rightarrow>
             (if routed = [] then None
              else Some (case b of Some x \<Rightarrow> best_index x | None \<Rightarrow> 0)))"

text \<open>
  Data for the dispatch scenarios: a routed candidate at a given route
  distance, the configuration without the dataset bonus, the configuration in
  which one named hospital has ICU availability (both with exact arithmetic:
  the scores of the scenarios are far apart), and the ledger after a first
  successful outcome for Apollo.
\<close>

definition candidate :: "string \<Rightarrow> real \<Rightarrow> routed_hospital" where
  "candidate name km =
     \<lparr>rh_hospital_name = name, rh_hospital_address = [], rh_hospital_phone = [],
      rh_hospital_lat = 13, rh_hospital_lon = 80, rh_straight_distance_km = km,
      rh_route_distance_km = km, rh_route_distance_m = km * 1000, rh_route_coordinates = []\<rparr>"

definition plain :: config where
  "plain = \<lparr>use_t_nagar_24x7 = False, dataset_extra = (\<lambda>name. 0), rounding = (\<lambda>x. x)\<rparr>"

definition icu_at :: "string \<Rightarrow> config" where
  "icu_at icu =
     \<lparr>use_t_nagar_24x7 = True, dataset_extra = (\<lambda>name. if name = icu then 1 / 10 else 0),
      rounding = (\<lambda>x. x)\<rparr>"

definition apollo_ledger :: db where
  "apollo_ledger =
     snd (record_case_outcome None ''Apollo'' ''a1'' ''successful'' 100 0 [] init_database)"

section \<open>The rating formula stays on the half-star scale\<close>


lemma py_round_bounds:
  assumes "of_int a \<le> x" "x \<le> of_int b"
  shows "a \<le> py_round x \<and> py_round x \<le> b"
proof -
  have lo: "a \<le> \<lfloor>x\<rfloor>" using assms(1) by (simp add: le_floor_iff)
  have hi: "\<lfloor>x\<rfloor> \<le> b" using assms(2) by (simp add: floor_le_iff) 
  have strict: "0 < x - of_int \<lfloor>x\<rfloor> \<Longrightarrow> \<lfloor>x\<rfloor> < b"
  proof -
    assume "0 < x - of_int \<lfloor>x\<rfloor>"
    then have "of_int \<lfloor>x\<rfloor> < (of_int b :: real)" using assms(2) by linarith
    then show ?thesis by simp
  qed
  show ?thesis
    unfolding py_round_def Let_def using lo hi strict
    by (auto; linarith)
qed

lemma half_star_of_int:
  assumes "0 \<le> k" "k \<le> 10"
  shows "half_star (of_int k / 2)"
proof -
  have "k = 0 \<or> k = 1 \<or> k = 2 \<or> k = 3 \<or> k = 4 \<or> k = 5 \<or> k = 6 \<or> k = 7 \<or> k = 8
           \<or> k = 9 \<or> k = 10" using assms by presburger
  then show ?thesis unfolding half_star_def by auto
qed

lemma calculate_new_rating_half_star:
  assumes "0 \<le> successful_outcomes p" "successful_outcomes p \<le> total_cases p"
      and "0 \<le> quality_score p" "quality_score p \<le> 100"
  shows "half_star (calculate_new_rating p)"
proof (cases "total_cases p = 0")
  case True
  then show ?thesis by (simp add: calculate_new_rating_def half_star_def)
next
  case False
  then have pos: "0 < total_cases p" using assms by linarith
  define sr where "sr = (of_int (successful_outcomes p) :: real) / of_int (total_cases p)"
  define rs where "rs = max 0 (min 100 (100 - (average_response_time_minutes p / 60) * 50))"
  define ov where "ov = sr * (40 / 100) + (quality_score p / 100) * (35 / 100) + (rs / 100) * (25 / 100)"
  have sr: "0 \<le> sr" "sr \<le> 1" using assms pos by (simp_all add: sr_def)
  have rs: "0 \<le> rs" "rs \<le> 100" by (simp_all add: rs_def)
  have ov: "0 \<le> ov" "ov \<le> 1" using sr rs assms(3,4) by (simp_all add: ov_def)
  have "of_int 0 \<le> ov * 5 * 2" "ov * 5 * 2 \<le> of_int 10" using ov by simp_all
  then have "0 \<le> py_round (ov * 5 * 2) \<and> py_round (ov * 5 * 2) \<le> 10"
    by (rule py_round_bounds)
  then have "half_star (of_int (py_round (ov * 5 * 2)) / 2)"
    by (simp add: half_star_of_int)
  moreover have "calculate_new_rating p = of_int (py_round (ov * 5 * 2)) / 2"
    using False by (simp add: calculate_new_rating_def Let_def ov_def sr_def rs_def)
  ultimately show ?thesis by (simp only:)
qed


lemma sum_list_bounds:
  fixes xs :: "real list"
  assumes "\<forall>x\<in>set xs. a \<le> x \<and> x \<le> b"
  shows "a * of_nat (length xs) \<le> sum_list xs \<and> sum_list xs \<le> b * of_nat (length xs)"
  using assms by (induction xs) (auto simp: algebra_simps)

lemma sql_avg_bounds:
  assumes "\<forall>x\<in>set xs. a \<le> x \<and> x \<le> b" "sql_avg xs = Some m"
  shows "a \<le> m \<and> m \<le> b"
proof -
  from assms(2) have ne: "xs \<noteq> []" and m: "m = sum_list xs / of_nat (length xs)"
    by (auto simp: sql_avg_def split: if_splits)
  have pos: "0 < (of_nat (length xs) :: real)" using ne by simp
  from sum_list_bounds[OF assms(1)] show ?thesis
    unfolding m using pos by (simp add: pos_le_divide_eq pos_divide_le_eq)
qed

lemma or_default_bounds:
  assumes "\<forall>x\<in>set xs. a \<le> x \<and> x \<le> b" "a \<le> dflt" "dflt \<le> b"
  shows "a \<le> or_default (sql_avg xs) dflt \<and> or_default (sql_avg xs) dflt \<le> b"
proof (cases "sql_avg xs")
  case None
  then show ?thesis using assms by (simp add: or_default_def)
next
  case (Some m)
  with sql_avg_bounds[OF assms(1) Some] show ?thesis using assms by (simp add: or_default_def)
qed

lemma performance_of_rating_ok:
  assumes "ledger_inv d" "0 \<le> h_successful_outcomes row" "h_successful_outcomes row \<le> h_total_cases row"
  shows "half_star (calculate_new_rating (performance_of row d))"
proof -
  let ?cs = "filter (\<lambda>c. c_hospital_id c = h_id row) (case_history d)"
  have "\<forall>x\<in>set (map c_quality_score ?cs). 0 \<le> x \<and> x \<le> 100"
    using assms(1) by (auto simp: ledger_inv_def list_all_iff)
  from or_default_bounds[OF this, of 50]
  have q: "0 \<le> quality_score (performance_of row d) \<and> quality_score (performance_of row d) \<le> 100"
    by (simp add: performance_of_def Let_def)
  show ?thesis
    by (rule calculate_new_rating_half_star) (use q assms in \<open>simp_all add: performance_of_def Let_def\<close>)
qed

lemma insert_or_ignore_ledger_inv:
  "ledger_inv d \<Longrightarrow> ledger_inv (insert_or_ignore_hospital n a la lo p d)"
  by (simp add: insert_or_ignore_hospital_def ledger_inv_def half_star_def)

lemma update_hospital_rating_ledger_inv:
  assumes "ledger_inv d" "update_hospital_rating f i d = Inr d'"
  shows "ledger_inv d'"
proof (cases "find (\<lambda>r. h_id r = i) (hospitals d)")
  case None
  with assms show ?thesis by (simp add: update_hospital_rating_def split: if_splits)
next
  case (Some row)
  then have "row \<in> set (hospitals d)" by (auto simp: find_Some_iff)
  with assms(1) have "0 \<le> h_successful_outcomes row" "h_successful_outcomes row \<le> h_total_cases row"
    by (auto simp: ledger_inv_def list_all_iff)
  from performance_of_rating_ok[OF assms(1) this]
  have ok: "half_star (calculate_new_rating (performance_of row d))" .
  from assms(2) Some show ?thesis
    using assms(1) ok
    by (auto simp: update_hospital_rating_def Let_def ledger_inv_def list_all_iff split: if_splits)
qed

lemma transaction_ledger_inv:
  assumes "ledger_inv d" "0 \<le> q" "q \<le> 100" "transaction f i a oc q t notes d = Inr d'"
  shows "ledger_inv d'"
proof -
  let ?d1 = "d\<lparr>case_history := case_history d @
                     [\<lparr>c_id = seq_case_history d + 1, c_hospital_id = i,
                       c_accident_id = a, c_patient_outcome = oc,
                       c_quality_score = q, c_response_time_minutes = t,
                       c_treatment_quality_notes = notes\<rparr>],
                   seq_case_history := seq_case_history d + 1\<rparr>"
  let ?s = "(if oc = ''successful'' then 1 else 0) :: int"
  let ?d2 = "?d1\<lparr>hospitals :=
                          map (\<lambda>r. if h_id r = i
                                   then r\<lparr>h_total_cases := h_total_cases r + 1,
                                          h_successful_outcomes := h_successful_outcomes r + ?s,
                                          h_total_response_time_minutes :=
                                            h_total_response_time_minutes r + t\<rparr>
                                   else r)
                              (hospitals ?d1)\<rparr>"
  have inv2: "ledger_inv ?d2"
    using assms(1-3) by (auto simp: ledger_inv_def list_all_iff)
  from assms(4) obtain d3 where "update_hospital_rating f i ?d2 = Inr d3" and "d' = d3"
    by (auto simp: transaction_def Let_def split: if_splits sum.splits)
  with update_hospital_rating_ledger_inv[OF inv2] show ?thesis by simp
qed

lemma lookup_or_register_ledger_inv:
  "ledger_inv d \<Longrightarrow> ledger_inv (snd (lookup_or_register f n d))"
  by (simp add: lookup_or_register_def register_hospital_def Let_def insert_or_ignore_ledger_inv
           split: prod.splits)

lemma record_case_outcome_ledger_inv:
  assumes "ledger_inv d" "0 \<le> q" "q \<le> 100"
  shows "ledger_inv (snd (record_case_outcome f n a oc q t notes d))"
proof -
  obtain r d0 where l: "lookup_or_register f n d = (r, d0)"
    by (cases "lookup_or_register f n d")
  from lookup_or_register_ledger_inv[OF assms(1), of f n] l have inv0: "ledger_inv d0" by simp
  show ?thesis
    using l inv0 transaction_ledger_inv[OF inv0 assms(2,3)]
    by (auto simp: record_case_outcome_def split: option.splits sum.splits if_splits)
qed

lemma run_calls_ledger_inv:
  "ledger_inv d \<Longrightarrow> list_all call_ok cs \<Longrightarrow> ledger_inv (fold run_call cs d)"
  by (induction cs arbitrary: d)
     (simp_all add: run_call_def call_ok_def record_case_outcome_ledger_inv)

subsection \<open>Lookup and registration\<close>

lemma find_append_list:
  "find P (xs @ ys) = (case find P xs of None \<Rightarrow> find P ys | Some x \<Rightarrow> Some x)"
  by (induction xs) simp_all


lemma find_mem: "find P xs = Some x \<Longrightarrow> x \<in> set xs \<and> P x"
  by (induction xs) (auto split: if_splits)

lemma count_key_distinct:
  "distinct (map f xs) \<Longrightarrow> x \<in> set xs \<Longrightarrow> length (filter (\<lambda>r. f r = f x) xs) = 1"
proof (induction xs)
  case Nil
  then show ?case by simp
next
  case (Cons y ys)
  show ?case
  proof (cases "f y = f x")
    case True
    with Cons.prems have "\<forall>r\<in>set ys. f r \<noteq> f x" by (auto simp: rev_image_eqI)
    then have "filter (\<lambda>r. f r = f x) ys = []" by (simp add: filter_empty_conv)
    with True show ?thesis by simp
  next
    case False
    with Cons show ?thesis by auto
  qed
qed

lemma insert_or_ignore_existing:
  "find (\<lambda>r. h_name r = n) (hospitals d) = Some r
   \<Longrightarrow> insert_or_ignore_hospital n a la lo p d = d\<lparr>seq_hospitals := seq_hospitals d + 1\<rparr>"
  by (simp add: insert_or_ignore_hospital_def)

lemma insert_or_ignore_fresh:
  "find (\<lambda>r. h_name r = n) (hospitals d) = None
   \<Longrightarrow> insert_or_ignore_hospital n a la lo p d =
       d\<lparr>hospitals := hospitals d @
                 [\<lparr>h_id = seq_hospitals d + 1, h_name = n, h_address = a,
                   h_latitude = la, h_longitude = lo, h_phone = p,
                   h_current_rating = 5 / 2, h_total_cases = 0,
                   h_successful_outcomes = 0, h_total_response_time_minutes = 0\<rparr>],
         seq_hospitals := seq_hospitals d + 1\<rparr>"
  by (simp add: insert_or_ignore_hospital_def)

lemma insert_or_ignore_find:
  "find (\<lambda>r. h_name r = n) (hospitals (insert_or_ignore_hospital n a la lo p d)) =
     (case find (\<lambda>r. h_name r = n) (hospitals d) of
        Some r \<Rightarrow> Some r
      | None \<Rightarrow> Some \<lparr>h_id = seq_hospitals d + 1, h_name = n, h_address = a,
                       h_latitude = la, h_longitude = lo, h_phone = p,
                       h_current_rating = 5 / 2, h_total_cases = 0,
                       h_successful_outcomes = 0, h_total_response_time_minutes = 0\<rparr>)"
  by (auto simp: insert_or_ignore_hospital_def find_append_list split: option.splits)

lemma registered_after_insert:
  "\<exists>row0. find (\<lambda>r. h_name r = n) (hospitals (insert_or_ignore_hospital n a la lo p d)) = Some row0"
  by (cases "find (\<lambda>r. h_name r = n) (hospitals d)") (simp_all add: insert_or_ignore_find)

lemma insert_or_ignore_wf:
  assumes "wf_db d"
  shows "wf_db (insert_or_ignore_hospital n a la lo p d)"
proof (cases "find (\<lambda>r. h_name r = n) (hospitals d)")
  case (Some r)
  then show ?thesis using assms
    by (auto simp: insert_or_ignore_hospital_def wf_db_def list_all_iff)
next
  case None
  then have fresh: "n \<notin> h_name ` set (hospitals d)" by (auto simp: find_None_iff)
  have ids: "\<forall>r\<in>set (hospitals d). h_id r \<le> seq_hospitals d"
    using assms by (auto simp: wf_db_def list_all_iff)
  then have "seq_hospitals d + 1 \<notin> h_id ` set (hospitals d)" by fastforce
  with None fresh assms show ?thesis
    by (auto simp: insert_or_ignore_hospital_def wf_db_def list_all_iff)
qed


lemma wf_db_one_row:
  assumes "wf_db d" "find (\<lambda>r. h_name r = n) (hospitals d) = Some r"
  shows "length (filter (\<lambda>x. h_name x = n) (hospitals d)) = 1"
proof -
  from find_mem[OF assms(2)] have mem: "r \<in> set (hospitals d)" and n: "h_name r = n" by simp_all
  from assms(1) have "distinct (map h_name (hospitals d))" by (simp add: wf_db_def)
  from count_key_distinct[OF this mem] show ?thesis by (simp add: n)
qed

subsection \<open>The transaction of \<open>record_case_outcome\<close>\<close>















subsection \<open>The call as a whole\<close>




subsection \<open>The stored rating and the overall score\<close>








subsection \<open>A first outcome on an empty ledger\<close>

lemma first_outcome_state:
  "record_case_outcome None ''Apollo'' ''a1'' ''successful'' 100 0 [] init_database =
     (Returned True,
      \<lparr>hospitals =
         [\<lparr>h_id = 1, h_name = ''Apollo'', h_address = [], h_latitude = None,
           h_longitude = None, h_phone = [], h_current_rating = 9 / 2,
           h_total_cases = 1, h_successful_outcomes = 1,
           h_total_response_time_minutes = 0\<rparr>],
       case_history =
         [\<lparr>c_id = 1, c_hospital_id = 1, c_accident_id = ''a1'',
           c_patient_outcome = ''successful'', c_quality_score = 100,
           c_response_time_minutes = 0, c_treatment_quality_notes = []\<rparr>],
       rating_history =
         [\<lparr>r_id = 1, r_hospital_id = 1, r_old_rating = 5 / 2,
           r_new_rating = 9 / 2, r_reason = Updated 1 1 100 60\<rparr>],
       seq_hospitals = 1, seq_case_history = 1, seq_rating_history = 1\<rparr>)"
  by (simp add: record_case_outcome_def lookup_or_register_def init_database_def
        register_hospital_def
        insert_or_ignore_hospital_def get_hospital_id_def truthy_def transaction_def
        update_hospital_rating_def performance_of_def sql_avg_def or_default_def
        calculate_new_rating_def py_round_def Let_def)


subsection \<open>The top list\<close>

lemma ranks_before_key:
  "((- h_current_rating r1, - h_total_cases r1) \<le> (- h_current_rating r2, - h_total_cases r2))
     = ranks_before r1 r2"
  by (auto simp: ranks_before_def less_eq_prod_def)

lemma sort_key_ranks:
  "sorted_wrt ranks_before (sort_key (\<lambda>r. (- h_current_rating r, - h_total_cases r)) xs)"
proof -
  let ?key = "\<lambda>r::hospital_row. (- h_current_rating r, - h_total_cases r)"
  have "sorted (map ?key (sort_key ?key xs))" by (rule sorted_sort_key)
  then have "sorted_wrt (\<lambda>x y. ?key x \<le> ?key y) (sort_key ?key xs)"
    by (simp only: sorted_map)
  moreover have "(\<lambda>x y. ?key x \<le> ?key y) = ranks_before"
    by (intro ext) (rule ranks_before_key)
  ultimately show ?thesis by (simp only:)
qed

lemma sorted_wrt_sql_limit: "sorted_wrt R xs \<Longrightarrow> sorted_wrt R (sql_limit n xs)"
  by (simp add: sql_limit_def sorted_wrt_take)

lemma top_rows_sorted: "sorted_wrt ranks_before (top_rows limit d)"
proof -
  let ?key = "\<lambda>r. (- h_current_rating r, - h_total_cases r)"
  let ?xs = "sort_key ?key (filter (\<lambda>r. 0 < h_total_cases r) (hospitals d))"
  have "sorted_wrt ranks_before ?xs" by (rule sort_key_ranks)
  then show ?thesis unfolding top_rows_def by (rule sorted_wrt_sql_limit)
qed

lemma top_rows_prefix:
  "\<exists>rest. mset (top_rows limit d @ rest) = mset (filter (\<lambda>r. 0 < h_total_cases r) (hospitals d))
          \<and> (\<forall>x\<in>set (top_rows limit d). \<forall>y\<in>set rest. ranks_before x y)
          \<and> (rest \<noteq> [] \<longrightarrow> 0 \<le> limit \<and> length (top_rows limit d) = nat limit)"
proof -
  let ?key = "\<lambda>r. (- h_current_rating r, - h_total_cases r)"
  let ?xs = "sort_key ?key (filter (\<lambda>r. 0 < h_total_cases r) (hospitals d))"
  have srt: "sorted_wrt ranks_before ?xs" by (rule sort_key_ranks)
  show ?thesis
  proof (cases "limit < 0")
    case True
    then have "top_rows limit d = ?xs" by (simp add: top_rows_def sql_limit_def)
    then show ?thesis by (intro exI[of _ "[]"]) simp
  next
    case False
    then have top: "top_rows limit d = take (nat limit) ?xs" by (simp add: top_rows_def sql_limit_def)
    let ?rest = "drop (nat limit) ?xs"
    have "sorted_wrt ranks_before (take (nat limit) ?xs @ ?rest)" using srt by simp
    then have cross: "\<forall>x\<in>set (take (nat limit) ?xs). \<forall>y\<in>set ?rest. ranks_before x y"
      unfolding sorted_wrt_append by blast
    have len: "?rest \<noteq> [] \<longrightarrow> length (take (nat limit) ?xs) = nat limit" by auto
    have "mset (take (nat limit) ?xs @ ?rest) = mset (filter (\<lambda>r. 0 < h_total_cases r) (hospitals d))"
      by simp
    with cross len False show ?thesis unfolding top by (intro exI[of _ ?rest]) simp
  qed
qed

lemma top_example_names:
  "map te_hospital_name (get_top_hospitals 2 top_example) = [''A'', ''B'']"
  by (simp add: get_top_hospitals_def top_rows_def sql_limit_def top_example_def less_eq_prod_def
        comp_def Let_def)

section \<open>Evaluating the searches on the two graphs\<close>

lemma detour_adjacency:
  "successors detour 1 = [4, 2]" "predecessors detour 4 = [1, 3]"
  "edge_weight detour 1 4 = 10" "edge_weight detour 1 2 = 1" "edge_weight detour 3 4 = 1"
  "edge_weight detour 2 3 = 1"
  "has_node detour 1" "has_node detour 4"
  "successors detour 2 = [3]" "successors detour 3 = [4]"
  by (simp_all add: successors_def predecessors_def first_seen_def edge_weight_def has_node_def
        detour_def)

lemma detour_search: "find_shortest_path detour 1 4 = Some (Path [1, 4] 10)"
  by (simp add: find_shortest_path_def search_loop.simps walk.simps reconstruct_def found_def
        forward_step_def backward_step_def initial_search_def Let_def meet_def detour_adjacency
        relax_forward_def relax_backward_def shortens_def improves_def)

lemma detour_path: "path_length detour [1, 2, 3, 4] = Some 3"
  by (simp add: detour_adjacency)

lemma detour_nodes: "all_nodes detour = [1, 2, 3, 4]"
  by (simp add: all_nodes_def detour_def)

lemma detour_edges:
  "g_edges detour = [\<lparr>e_from = 1, e_to = 4, e_length = Some 10\<rparr>,
                 \<lparr>e_from = 1, e_to = 2, e_length = Some 1\<rparr>,
                 \<lparr>e_from = 2, e_to = 3, e_length = Some 1\<rparr>,
                 \<lparr>e_from = 3, e_to = 4, e_length = Some 1\<rparr>]"
  by (simp add: detour_def)

lemma detour_reference: "reference_dijkstra detour 1 4 = Some 3"
  by (simp add: reference_dijkstra_def detour_nodes detour_edges tentative_min_def nearer_def
        relax_edge_def shortens_def edge_len_def numeral_eq_Suc)

lemma chain_adjacency:
  "successors chain 1 = [0]" "successors chain 0 = [2]" "successors chain 2 = []"
  "predecessors chain 2 = [0]" "predecessors chain 0 = [1]" "predecessors chain 1 = []"
  "edge_weight chain 1 0 = 1" "edge_weight chain 0 2 = 1"
  "has_node chain 0" "has_node chain 1" "has_node chain 2"
  by (simp_all add: successors_def predecessors_def first_seen_def edge_weight_def has_node_def
        chain_def)

lemma chain_search: "find_shortest_path chain 1 2 = Some NoPathFound"
  by (simp add: find_shortest_path_def search_loop.simps walk.simps reconstruct_def found_def
        forward_step_def backward_step_def initial_search_def Let_def meet_def chain_adjacency
        relax_forward_def relax_backward_def shortens_def improves_def)

lemma chain_path: "path_length chain [1, 0, 2] = Some 2"
  by (simp add: chain_adjacency)


lemma chain_nodes: "all_nodes chain = [1, 0, 2]"
  by (simp add: all_nodes_def chain_def)

lemma chain_edges:
  "g_edges chain = [\<lparr>e_from = 1, e_to = 0, e_length = Some 1\<rparr>,
                 \<lparr>e_from = 0, e_to = 2, e_length = Some 1\<rparr>]"
  by (simp add: chain_def)

lemma chain_reference: "reference_dijkstra chain 1 2 = Some 2"
  by (simp add: reference_dijkstra_def chain_nodes chain_edges tentative_min_def nearer_def
        relax_edge_def shortens_def edge_len_def numeral_eq_Suc)

section \<open>The selection loop keeps the first maximum\<close>

lemma get_hospital_rating_found:
  "find (\<lambda>r. h_name r = n) (hospitals d) = Some row
   \<Longrightarrow> \<exists>info. get_hospital_rating n d = Some info \<and> ri_current_rating info = h_current_rating row"
  by (simp add: get_hospital_rating_def Let_def)

lemma get_hospital_rating_missing:
  "find (\<lambda>r. h_name r = n) (hospitals d) = None \<Longrightarrow> get_hospital_rating n d = None"
  by (simp add: get_hospital_rating_def)

lemma stored_rating_insert:
  "stored_rating (insert_or_ignore_hospital n a la lo p d) m = stored_rating d m"
  by (auto simp: stored_rating_def insert_or_ignore_hospital_def find_append_list
           split: option.splits)

lemma rating_of_candidate_reads:
  assumes "rating_of_candidate h d = (info, d')"
  shows "\<exists>i. info = Some i \<and> ri_current_rating i = stored_rating d (rh_hospital_name h)"
    and "stored_rating d' m = stored_rating d m"
proof -
  let ?n = "rh_hospital_name h"
  show "\<exists>i. info = Some i \<and> ri_current_rating i = stored_rating d ?n"
  proof (cases "find (\<lambda>r. h_name r = ?n) (hospitals d)")
    case (Some row)
    from get_hospital_rating_found[OF Some] obtain i0 where
      g: "get_hospital_rating ?n d = Some i0" and r: "ri_current_rating i0 = h_current_rating row"
      by blast
    from assms g have "info = Some i0" by (simp add: rating_of_candidate_def)
    with r Some show ?thesis by (simp add: stored_rating_def)
  next
    case None
    let ?d1 = "insert_or_ignore_hospital ?n (rh_hospital_address h) (Some (rh_hospital_lat h))
                 (Some (rh_hospital_lon h)) (rh_hospital_phone h) d"
    obtain row where row: "find (\<lambda>r. h_name r = ?n) (hospitals ?d1) = Some row"
      using registered_after_insert by blast
    with None have half: "h_current_rating row = 5 / 2" by (auto simp: insert_or_ignore_find)
    from get_hospital_rating_found[OF row] obtain i0 where
      g: "get_hospital_rating ?n ?d1 = Some i0" and r: "ri_current_rating i0 = h_current_rating row"
      by blast
    from assms g get_hospital_rating_missing[OF None] have "info = Some i0"
      by (simp add: rating_of_candidate_def register_hospital_def Let_def)
    with r half None show ?thesis by (simp add: stored_rating_def)
  qed
  show "stored_rating d' m = stored_rating d m"
    using assms
    by (auto simp: rating_of_candidate_def register_hospital_def Let_def stored_rating_insert
             split: option.splits)
qed

lemma combined_score_value:
  assumes "combined_score cfg h (Some i) = Inr s"
      and "ri_current_rating i = stored_rating d (rh_hospital_name h)"
  shows "s = score_in cfg d h"
  using assms by (auto simp: combined_score_def score_in_def Let_def split: if_splits)

lemma score_in_cong:
  "(\<And>m. stored_rating d' m = stored_rating d m) \<Longrightarrow> score_in cfg d' h = score_in cfg d h"
  by (simp add: score_in_def)

lemma select_best_first_maximum:
  assumes "select_best cfg cands b bs d = (Inr (b', bs'), d')"
  shows "bs \<le> bs' \<and>
         ((b' = b \<and> bs' = bs)
          \<or> (\<exists>pre k h post info.
                cands = pre @ (k, h) # post
              \<and> b' = Some \<lparr>best_index = k, best_hospital = h, best_rating_info = info\<rparr>
              \<and> bs' = score_in cfg d h \<and> bs < bs'
              \<and> (\<forall>x\<in>set pre. score_in cfg d (snd x) < bs')))"
  using assms
proof (induction cands arbitrary: b bs d)
  case Nil
  then show ?case by simp
next
  case (Cons c rest)
  obtain i h where c: "c = (i, h)" by (cases c)
  obtain info d1 where roc: "rating_of_candidate h d = (info, d1)"
    by (cases "rating_of_candidate h d")
  from rating_of_candidate_reads[OF roc] obtain ri where
    info: "info = Some ri" and ri: "ri_current_rating ri = stored_rating d (rh_hospital_name h)"
    and same: "\<And>m. stored_rating d1 m = stored_rating d m"
    by blast
  have sc: "\<And>x. score_in cfg d1 x = score_in cfg d x"
    using same by (rule score_in_cong)
  from Cons.prems c roc obtain s where cs: "combined_score cfg h info = Inr s"
    by (cases "combined_score cfg h info") auto
  have s: "s = score_in cfg d h"
    using cs ri unfolding info by (rule combined_score_value)
  show ?case
  proof (cases "bs < s")
    case True
    let ?b1 = "Some \<lparr>best_index = i, best_hospital = h, best_rating_info = info\<rparr>"
    from Cons.prems c roc cs True
    have "select_best cfg rest ?b1 s d1 = (Inr (b', bs'), d')" by simp
    from Cons.IH[OF this]
    have le: "s \<le> bs'" and alt: "(b' = ?b1 \<and> bs' = s)
          \<or> (\<exists>pre k h2 post info2.
                rest = pre @ (k, h2) # post
              \<and> b' = Some \<lparr>best_index = k, best_hospital = h2, best_rating_info = info2\<rparr>
              \<and> bs' = score_in cfg d h2 \<and> s < bs'
              \<and> (\<forall>x\<in>set pre. score_in cfg d (snd x) < bs'))"
      unfolding sc by blast+
    from alt show ?thesis
    proof
      assume "b' = ?b1 \<and> bs' = s"
      then have "c # rest = [] @ (i, h) # rest
              \<and> b' = Some \<lparr>best_index = i, best_hospital = h, best_rating_info = info\<rparr>
              \<and> bs' = score_in cfg d h \<and> bs < bs'
              \<and> (\<forall>x\<in>set []. score_in cfg d (snd x) < bs')"
        using c s True by simp
      then show ?thesis using True le by (intro conjI disjI2 exI) (auto simp only:)
    next
      assume "\<exists>pre k h2 post info2.
                rest = pre @ (k, h2) # post
              \<and> b' = Some \<lparr>best_index = k, best_hospital = h2, best_rating_info = info2\<rparr>
              \<and> bs' = score_in cfg d h2 \<and> s < bs'
              \<and> (\<forall>x\<in>set pre. score_in cfg d (snd x) < bs')"
      then obtain pre k h2 post info2 where
        r: "rest = pre @ (k, h2) # post"
        and b': "b' = Some \<lparr>best_index = k, best_hospital = h2, best_rating_info = info2\<rparr>"
        and v: "bs' = score_in cfg d h2" and lt: "s < bs'"
        and before: "\<forall>x\<in>set pre. score_in cfg d (snd x) < bs'"
        by blast
      have "c # rest = (c # pre) @ (k, h2) # post" using r by simp
      moreover have "\<forall>x\<in>set (c # pre). score_in cfg d (snd x) < bs'"
        using before lt s c by simp
      moreover have "bs < bs'" using True lt by simp
      ultimately show ?thesis using b' v by (intro conjI disjI2 exI) (auto simp only: less_imp_le)
    qed
  next
    case False
    from Cons.prems c roc cs False
    have "select_best cfg rest b bs d1 = (Inr (b', bs'), d')" by simp
    from Cons.IH[OF this]
    have le: "bs \<le> bs'" and alt: "(b' = b \<and> bs' = bs)
          \<or> (\<exists>pre k h2 post info2.
                rest = pre @ (k, h2) # post
              \<and> b' = Some \<lparr>best_index = k, best_hospital = h2, best_rating_info = info2\<rparr>
              \<and> bs' = score_in cfg d h2 \<and> bs < bs'
              \<and> (\<forall>x\<in>set pre. score_in cfg d (snd x) < bs'))"
      unfolding sc by blast+
    from alt show ?thesis
    proof
      assume "b' = b \<and> bs' = bs"
      then show ?thesis by simp
    next
      assume "\<exists>pre k h2 post info2.
                rest = pre @ (k, h2) # post
              \<and> b' = Some \<lparr>best_index = k, best_hospital = h2, best_rating_info = info2\<rparr>
              \<and> bs' = score_in cfg d h2 \<and> bs < bs'
              \<and> (\<forall>x\<in>set pre. score_in cfg d (snd x) < bs')"
      then obtain pre k h2 post info2 where
        r: "rest = pre @ (k, h2) # post"
        and b': "b' = Some \<lparr>best_index = k, best_hospital = h2, best_rating_info = info2\<rparr>"
        and v: "bs' = score_in cfg d h2" and lt: "bs < bs'"
        and before: "\<forall>x\<in>set pre. score_in cfg d (snd x) < bs'"
        by blast
      have "c # rest = (c # pre) @ (k, h2) # post" using r by simp
      moreover have "\<forall>x\<in>set (c # pre). score_in cfg d (snd x) < bs'"
        using before lt s c False by simp
      ultimately show ?thesis using b' v lt le by (intro conjI disjI2 exI) (auto simp only:)
    qed
  qed
qed

lemma enumerate_split:
  assumes "zip [0..<length xs] xs = pre @ (k, h) # post"
  shows "k = length pre" and "k < length xs" and "h = xs ! k"
    and "\<And>i. i < k \<Longrightarrow> (i, xs ! i) \<in> set pre"
proof -
  let ?z = "zip [0..<length xs] xs"
  have len: "length ?z = length xs" by simp
  have lp: "length pre < length xs" using assms len by (metis length_append length_Cons add_Suc_right less_add_Suc1)
  have nth: "\<And>m. m < length xs \<Longrightarrow> ?z ! m = (m, xs ! m)" by simp
  have "?z ! length pre = (k, h)" unfolding assms by simp
  with nth[OF lp] show k: "k = length pre" and "h = xs ! k" by simp_all
  show "k < length xs" using k lp by simp
  fix i assume "i < k"
  then have i: "i < length pre" using k by simp
  then have "pre ! i = ?z ! i" unfolding assms by (simp add: nth_append)
  also have "\<dots> = (i, xs ! i)" using i lp by (intro nth) simp
  finally show "(i, xs ! i) \<in> set pre" using i by (metis nth_mem)
qed

subsection \<open>The dispatch scenarios\<close>

lemma apollo_ledger_state:
  "apollo_ledger =
      \<lparr>hospitals =
         [\<lparr>h_id = 1, h_name = ''Apollo'', h_address = [], h_latitude = None,
           h_longitude = None, h_phone = [], h_current_rating = 9 / 2,
           h_total_cases = 1, h_successful_outcomes = 1,
           h_total_response_time_minutes = 0\<rparr>],
       case_history =
         [\<lparr>c_id = 1, c_hospital_id = 1, c_accident_id = ''a1'',
           c_patient_outcome = ''successful'', c_quality_score = 100,
           c_response_time_minutes = 0, c_treatment_quality_notes = []\<rparr>],
       rating_history =
         [\<lparr>r_id = 1, r_hospital_id = 1, r_old_rating = 5 / 2,
           r_new_rating = 9 / 2, r_reason = Updated 1 1 100 60\<rparr>],
       seq_hospitals = 1, seq_case_history = 1, seq_rating_history = 1\<rparr>"
  by (simp add: apollo_ledger_def first_outcome_state)

lemma three_routed:
  "hospitals_with_routes
     [WithRoute (candidate ''Far'' 3), WithRoute (candidate ''Apollo'' (12 / 10)),
      WithRoute (candidate ''Nearby'' 1)]
   = [candidate ''Nearby'' 1, candidate ''Apollo'' (12 / 10), candidate ''Far'' 3]"
  by (simp add: hospitals_with_routes_def List.map_filter_def candidate_def)

lemmas dispatch_eval =
  rating_of_candidate_def combined_score_def candidate_def plain_def icu_at_def extra_of_def
  get_hospital_rating_def register_hospital_def insert_or_ignore_hospital_def
  get_hospital_id_def Let_def sql_avg_def or_default_def py_round2_def py_round_def
  alternative_of_def

lemma three_selected:
  "selected_index plain
     [WithRoute (candidate ''Far'' 3), WithRoute (candidate ''Apollo'' (12 / 10)),
      WithRoute (candidate ''Nearby'' 1)] apollo_ledger = Some 1"
  unfolding selected_index_def three_routed
  by (simp add: apollo_ledger_state dispatch_eval)

lemma three_dispatched:
  "(case fst (handle_accident plain
        [WithRoute (candidate ''Far'' 3), WithRoute (candidate ''Apollo'' (12 / 10)),
         WithRoute (candidate ''Nearby'' 1)] 13 80 ''acc'' apollo_ledger) of
      Dispatched r \<Rightarrow> (sh_name (resp_selected_hospital r), map alt_name (resp_alternative_hospitals r))
    | NoHospitals a \<Rightarrow> ([], [])
    | Failed e \<Rightarrow> ([], []))
   = (''Apollo'', [''Apollo'', ''Far''])"
  unfolding handle_accident_def three_routed
  by (simp add: apollo_ledger_state dispatch_eval)

lemma tie_first:
  "selected_index plain [WithRoute (candidate ''A'' 2), WithRoute (candidate ''B'' 2)] init_database
   = Some 0"
  unfolding selected_index_def
  by (simp add: hospitals_with_routes_def List.map_filter_def init_database_def dispatch_eval)

lemma tie_bonus:
  "selected_index (icu_at ''B'') [WithRoute (candidate ''A'' 2), WithRoute (candidate ''B'' 2)]
     init_database = Some 1"
  unfolding selected_index_def
  by (simp add: hospitals_with_routes_def List.map_filter_def init_database_def dispatch_eval)

lemma tie_equal:
  "rh_route_distance_km (candidate ''A'' 2) = rh_route_distance_km (candidate ''B'' 2)"
  "stored_rating init_database ''A'' = stored_rating init_database ''B''"
  by (simp_all add: candidate_def stored_rating_def init_database_def)

section \<open>Claims about the rating ledger\<close>

text \<open>
  Claim C4.  After every finite sequence of \<open>record_case_outcome\<close> calls whose
  arguments meet the preconditions (quality in \<open>[0, 100]\<close>, response time not
  negative), whether each call commits or meets a persistence failure, every
  facility's current rating lies in \<open>{0, 0.5, 1.0, ..., 5.0}\<close>.  The sequence may
  start from the empty database or from any ledger that satisfies the
  invariant.
\<close>

theorem rating_always_half_star:
  assumes "ledger_inv d" and "list_all call_ok cs"
  shows "list_all (\<lambda>r. half_star (h_current_rating r)) (hospitals (fold run_call cs d))"
  using run_calls_ledger_inv[OF assms] by (simp add: ledger_inv_def list_all_iff)

theorem rating_always_half_star_witness:
  "ledger_inv init_database
   \<and> list_all call_ok
        [\<lparr>oc_fault = None, oc_name = ''Apollo'', oc_accident_id = ''a1'',
          oc_outcome = ''successful'', oc_quality = 100, oc_response = 0, oc_notes = []\<rparr>,
         \<lparr>oc_fault = Some Commit, oc_name = ''Apollo'', oc_accident_id = ''a2'',
          oc_outcome = ''partial'', oc_quality = 40, oc_response = 90, oc_notes = []\<rparr>]
   \<and> list_all (\<lambda>r. half_star (h_current_rating r))
        (hospitals (fold run_call
          [\<lparr>oc_fault = None, oc_name = ''Apollo'', oc_accident_id = ''a1'',
            oc_outcome = ''successful'', oc_quality = 100, oc_response = 0, oc_notes = []\<rparr>,
           \<lparr>oc_fault = Some Commit, oc_name = ''Apollo'', oc_accident_id = ''a2'',
            oc_outcome = ''partial'', oc_quality = 40, oc_response = 90, oc_notes = []\<rparr>]
          init_database))"
  using rating_always_half_star[of init_database
        "[\<lparr>oc_fault = None, oc_name = ''Apollo'', oc_accident_id = ''a1'',
          oc_outcome = ''successful'', oc_quality = 100, oc_response = 0, oc_notes = []\<rparr>,
         \<lparr>oc_fault = Some Commit, oc_name = ''Apollo'', oc_accident_id = ''a2'',
          oc_outcome = ''partial'', oc_quality = 40, oc_response = 90, oc_notes = []\<rparr>]"]
  by (simp add: ledger_inv_def init_database_def call_ok_def)




text \<open>
  Claim C6.  \<open>register_hospital\<close> is idempotent: two calls with the same name
  (whatever the other arguments) return the same key, and the store holds
  exactly one row of that name.  The second call leaves every row of the three
  tables as it was; the one thing it changes is the key counter of the
  \<open>hospitals\<close> table, which the ignored insertion advances by one.  A first
  registration creates the row with rating 2.5 and all counters zero; a
  registration of an existing name returns the existing row's key and leaves
  that row unchanged.
\<close>

theorem register_hospital_idempotent:
  assumes "wf_db d"
  shows "\<exists>i row.
     register_hospital n a la lo p d = (Some i, insert_or_ignore_hospital n a la lo p d)
   \<and> register_hospital n a' la' lo' p' (insert_or_ignore_hospital n a la lo p d)
       = (Some i,
          (insert_or_ignore_hospital n a la lo p d)
            \<lparr>seq_hospitals := seq_hospitals (insert_or_ignore_hospital n a la lo p d) + 1\<rparr>)
   \<and> filter (\<lambda>r. h_name r = n) (hospitals (insert_or_ignore_hospital n a la lo p d)) = [row]
   \<and> h_id row = i
   \<and> (case find (\<lambda>r. h_name r = n) (hospitals d) of
         Some r \<Rightarrow> row = r
           \<and> insert_or_ignore_hospital n a la lo p d = d\<lparr>seq_hospitals := seq_hospitals d + 1\<rparr>
       | None \<Rightarrow> row = \<lparr>h_id = seq_hospitals d + 1, h_name = n, h_address = a,
                       h_latitude = la, h_longitude = lo, h_phone = p,
                       h_current_rating = 5 / 2, h_total_cases = 0,
                       h_successful_outcomes = 0, h_total_response_time_minutes = 0\<rparr>
           \<and> insert_or_ignore_hospital n a la lo p d
               = d\<lparr>hospitals := hospitals d @ [row], seq_hospitals := seq_hospitals d + 1\<rparr>)"
proof -
  let ?d1 = "insert_or_ignore_hospital n a la lo p d"
  obtain row where row: "find (\<lambda>r. h_name r = n) (hospitals ?d1) = Some row"
    by (cases "find (\<lambda>r. h_name r = n) (hospitals d)") (simp_all add: insert_or_ignore_find)
  have wf1: "wf_db ?d1" using assms by (rule insert_or_ignore_wf)
  have first: "register_hospital n a la lo p d = (Some (h_id row), ?d1)"
    using row by (simp add: register_hospital_def get_hospital_id_def Let_def)
  have same: "insert_or_ignore_hospital n a' la' lo' p' ?d1
              = ?d1\<lparr>seq_hospitals := seq_hospitals ?d1 + 1\<rparr>"
    using row by (rule insert_or_ignore_existing)
  have second: "register_hospital n a' la' lo' p' ?d1
                = (Some (h_id row), ?d1\<lparr>seq_hospitals := seq_hospitals ?d1 + 1\<rparr>)"
    using row by (simp add: register_hospital_def get_hospital_id_def Let_def same)
  have len: "length (filter (\<lambda>r. h_name r = n) (hospitals ?d1)) = 1"
    using wf1 row by (rule wf_db_one_row)
  from find_mem[OF row] have "row \<in> set (filter (\<lambda>r. h_name r = n) (hospitals ?d1))" by simp
  with len have one: "filter (\<lambda>r. h_name r = n) (hospitals ?d1) = [row]"
    by (cases "filter (\<lambda>r. h_name r = n) (hospitals ?d1)") auto
  have shape: "case find (\<lambda>r. h_name r = n) (hospitals d) of
         Some r \<Rightarrow> row = r \<and> ?d1 = d\<lparr>seq_hospitals := seq_hospitals d + 1\<rparr>
       | None \<Rightarrow> row = \<lparr>h_id = seq_hospitals d + 1, h_name = n, h_address = a,
                       h_latitude = la, h_longitude = lo, h_phone = p,
                       h_current_rating = 5 / 2, h_total_cases = 0,
                       h_successful_outcomes = 0, h_total_response_time_minutes = 0\<rparr>
           \<and> ?d1 = d\<lparr>hospitals := hospitals d @ [row], seq_hospitals := seq_hospitals d + 1\<rparr>"
  proof (cases "find (\<lambda>r. h_name r = n) (hospitals d)")
    case None
    with row have r: "row = \<lparr>h_id = seq_hospitals d + 1, h_name = n, h_address = a,
                       h_latitude = la, h_longitude = lo, h_phone = p,
                       h_current_rating = 5 / 2, h_total_cases = 0,
                       h_successful_outcomes = 0, h_total_response_time_minutes = 0\<rparr>"
      by (simp add: insert_or_ignore_find)
    have "?d1 = d\<lparr>hospitals := hospitals d @ [row], seq_hospitals := seq_hospitals d + 1\<rparr>"
      unfolding r using None by (rule insert_or_ignore_fresh)
    with r None show ?thesis by simp
  next
    case (Some r)
    with row have "row = r" by (simp add: insert_or_ignore_find)
    with Some insert_or_ignore_existing[OF Some, of a la lo p] show ?thesis by simp
  qed
  from first second one shape show ?thesis by blast
qed

theorem register_hospital_idempotent_witness:
  "wf_db init_database
   \<and> register_hospital ''Apollo'' ''Greams Road'' None None ''044'' init_database
       = (Some 1, insert_or_ignore_hospital ''Apollo'' ''Greams Road'' None None ''044'' init_database)
   \<and> register_hospital ''Apollo'' [] None None []
         (insert_or_ignore_hospital ''Apollo'' ''Greams Road'' None None ''044'' init_database)
       = (Some 1,
          (insert_or_ignore_hospital ''Apollo'' ''Greams Road'' None None ''044'' init_database)
            \<lparr>seq_hospitals := 2\<rparr>)
   \<and> map h_name
       (hospitals (insert_or_ignore_hospital ''Apollo'' ''Greams Road'' None None ''044''
                     init_database)) = [''Apollo'']"
proof -
  have wf: "wf_db init_database" by (simp add: wf_db_def init_database_def)
  have seq: "seq_hospitals (insert_or_ignore_hospital ''Apollo'' ''Greams Road'' None None ''044''
                              init_database) = 1"
    by (simp add: insert_or_ignore_hospital_def init_database_def)
  have names: "map h_name
       (hospitals (insert_or_ignore_hospital ''Apollo'' ''Greams Road'' None None ''044''
                     init_database)) = [''Apollo'']"
    by (simp add: insert_or_ignore_hospital_def init_database_def)
  have none: "find (\<lambda>r. h_name r = ''Apollo'') (hospitals init_database) = None"
    by (simp add: init_database_def)
  from register_hospital_idempotent[OF wf, of "''Apollo''" "''Greams Road''" None None "''044''" "[]" None None "[]"]
  show ?thesis using wf names unfolding seq none by (auto simp: init_database_def)
qed

text \<open>
  Claim C2.  A freshly registered facility has rating 2.5.  After one
  \<open>record_case_outcome\<close> with outcome \<open>successful\<close>, quality 100 and response
  time 0 on the empty ledger the stored rating is 4.5, not 5.0: the average
  response time 0 is falsy and is replaced by 60 minutes, which the formula
  rates 4.5, while the same formula on an average of 0 minutes gives 5.0, as it
  does on the slower average of 1 minute.  The aggregate view of the same
  facility reports the average response time 0.
\<close>

theorem first_successful_outcome_rating:
  "map_option h_current_rating
     (find (\<lambda>r. h_name r = ''Apollo'')
        (hospitals (snd (register_hospital ''Apollo'' [] None None [] init_database))))
     = Some (5 / 2)
   \<and> map_option h_current_rating
       (find (\<lambda>r. h_name r = ''Apollo'')
          (hospitals (snd (record_case_outcome None ''Apollo'' ''a1'' ''successful'' 100 0 []
                             init_database))))
     = Some (9 / 2)
   \<and> map_option ri_average_response_time_minutes
       (get_hospital_rating ''Apollo''
          (snd (record_case_outcome None ''Apollo'' ''a1'' ''successful'' 100 0 [] init_database)))
     = Some 0
   \<and> calculate_new_rating
       \<lparr>hospital_name = ''Apollo'', total_cases = 1, successful_outcomes = 1,
        average_response_time_minutes = 60, quality_score = 100, current_rating = 5 / 2\<rparr>
     = 9 / 2
   \<and> calculate_new_rating
       \<lparr>hospital_name = ''Apollo'', total_cases = 1, successful_outcomes = 1,
        average_response_time_minutes = 0, quality_score = 100, current_rating = 5 / 2\<rparr>
     = 5
   \<and> calculate_new_rating
       \<lparr>hospital_name = ''Apollo'', total_cases = 1, successful_outcomes = 1,
        average_response_time_minutes = 1, quality_score = 100, current_rating = 5 / 2\<rparr>
     = 5"
proof (intro conjI)
  show "map_option h_current_rating
     (find (\<lambda>r. h_name r = ''Apollo'')
        (hospitals (snd (register_hospital ''Apollo'' [] None None [] init_database))))
     = Some (5 / 2)"
    by (simp add: register_hospital_def insert_or_ignore_hospital_def init_database_def Let_def)
  show "map_option h_current_rating
       (find (\<lambda>r. h_name r = ''Apollo'')
          (hospitals (snd (record_case_outcome None ''Apollo'' ''a1'' ''successful'' 100 0 []
                             init_database))))
     = Some (9 / 2)"
    by (simp add: first_outcome_state)
  show "map_option ri_average_response_time_minutes
       (get_hospital_rating ''Apollo''
          (snd (record_case_outcome None ''Apollo'' ''a1'' ''successful'' 100 0 [] init_database)))
     = Some 0"
    by (simp add: first_outcome_state get_hospital_rating_def Let_def py_round2_def py_round_def)
  show "calculate_new_rating
       \<lparr>hospital_name = ''Apollo'', total_cases = 1, successful_outcomes = 1,
        average_response_time_minutes = 60, quality_score = 100, current_rating = 5 / 2\<rparr>
     = 9 / 2"
    by (simp add: calculate_new_rating_def py_round_def Let_def)
  show "calculate_new_rating
       \<lparr>hospital_name = ''Apollo'', total_cases = 1, successful_outcomes = 1,
        average_response_time_minutes = 0, quality_score = 100, current_rating = 5 / 2\<rparr>
     = 5"
    by (simp add: calculate_new_rating_def py_round_def Let_def)
  show "calculate_new_rating
       \<lparr>hospital_name = ''Apollo'', total_cases = 1, successful_outcomes = 1,
        average_response_time_minutes = 1, quality_score = 100, current_rating = 5 / 2\<rparr>
     = 5"
    by (simp add: calculate_new_rating_def py_round_def Let_def)
qed



text \<open>
  Claim C7.  \<open>get_top_hospitals\<close> reports the rows of \<open>top_rows\<close>, which are
  facilities of the store with at least one case, ordered by rating descending
  and then by cases descending, and are a prefix of that ordering of all such
  facilities: what is cut off ranks no higher than what is returned, and
  something is cut off only when the limit is reached.  Over A (4.5, 10 cases),
  B (4.5, 3 cases) and C (3.0, 50 cases) a limit of 2 returns A, B.
\<close>

theorem get_top_hospitals_ordered:
  "map te_hospital_name (get_top_hospitals limit d) = map h_name (top_rows limit d)
   \<and> map te_current_rating (get_top_hospitals limit d) = map h_current_rating (top_rows limit d)
   \<and> map te_total_cases (get_top_hospitals limit d) = map h_total_cases (top_rows limit d)
   \<and> (\<forall>r\<in>set (top_rows limit d). r \<in> set (hospitals d) \<and> 0 < h_total_cases r)
   \<and> sorted_wrt ranks_before (top_rows limit d)
   \<and> (\<exists>rest. mset (top_rows limit d @ rest) = mset (filter (\<lambda>r. 0 < h_total_cases r) (hospitals d))
          \<and> (\<forall>x\<in>set (top_rows limit d). \<forall>y\<in>set rest. ranks_before x y)
          \<and> (rest \<noteq> [] \<longrightarrow> 0 \<le> limit \<and> length (top_rows limit d) = nat limit))
   \<and> (0 \<le> limit \<longrightarrow> length (get_top_hospitals limit d) \<le> nat limit)
   \<and> map te_hospital_name (get_top_hospitals 2 top_example) = [''A'', ''B'']"
proof (intro conjI)
  show "map te_hospital_name (get_top_hospitals limit d) = map h_name (top_rows limit d)"
    by (simp add: get_top_hospitals_def comp_def Let_def)
  show "map te_current_rating (get_top_hospitals limit d) = map h_current_rating (top_rows limit d)"
    by (simp add: get_top_hospitals_def comp_def Let_def)
  show "map te_total_cases (get_top_hospitals limit d) = map h_total_cases (top_rows limit d)"
    by (simp add: get_top_hospitals_def comp_def Let_def)
  show "\<forall>r\<in>set (top_rows limit d). r \<in> set (hospitals d) \<and> 0 < h_total_cases r"
    by (auto simp: top_rows_def sql_limit_def dest: in_set_takeD)
  show "sorted_wrt ranks_before (top_rows limit d)" by (rule top_rows_sorted)
  show "\<exists>rest. mset (top_rows limit d @ rest) = mset (filter (\<lambda>r. 0 < h_total_cases r) (hospitals d))
          \<and> (\<forall>x\<in>set (top_rows limit d). \<forall>y\<in>set rest. ranks_before x y)
          \<and> (rest \<noteq> [] \<longrightarrow> 0 \<le> limit \<and> length (top_rows limit d) = nat limit)"
    by (rule top_rows_prefix)
  show "0 \<le> limit \<longrightarrow> length (get_top_hospitals limit d) \<le> nat limit"
    by (simp add: get_top_hospitals_def top_rows_def sql_limit_def)
  show "map te_hospital_name (get_top_hospitals 2 top_example) = [''A'', ''B'']"
    by (rule top_example_names)
qed

theorem get_top_hospitals_ordered_witness:
  "(0::int) \<le> 2
   \<and> sorted_wrt ranks_before (top_rows 2 top_example)
   \<and> length (get_top_hospitals 2 top_example) \<le> nat 2
   \<and> map te_hospital_name (get_top_hospitals 2 top_example) = [''A'', ''B'']"
proof -
  have "(0::int) \<le> 2" by simp
  with get_top_hospitals_ordered[of 2 top_example] show ?thesis by blast
qed

section \<open>Claims about route finding\<close>

text \<open>
  Claim C1.  The bidirectional search does not always return the shortest
  distance.  On the graph \<open>detour\<close> (edges 1-4 of length 10 and 1-2, 2-3, 3-4 of
  length 1) the search from 1 to 4 returns the path 1, 4 of length 10 at the end
  of its first round, while the reference Dijkstra run gives 3, the length of
  the walk 1, 2, 3, 4.  On the graph \<open>chain\<close> (edges 1-0 and 0-2 of length 1)
  the only meeting node is 0, which the termination test takes for no meeting
  node, and the search from 1 to 2 returns no path although the walk 1, 0, 2
  has length 2.
\<close>

theorem bidirectional_search_not_shortest:
  "find_shortest_path detour 1 4 = Some (Path [1, 4] 10)
   \<and> reference_dijkstra detour 1 4 = Some 3
   \<and> path_length detour [1, 2, 3, 4] = Some 3
   \<and> find_shortest_path chain 1 2 = Some NoPathFound
   \<and> reference_dijkstra chain 1 2 = Some 2
   \<and> path_length chain [1, 0, 2] = Some 2"
  by (simp only: detour_search detour_reference detour_path chain_search chain_reference
        chain_path simp_thms)

text \<open>
  Claim C9.  When the cache has no entry for the area between accident and
  hospital and the graph provider fails, \<open>get_road_network\<close> returns no graph
  and leaves the cache as it was, and the routed-mode call of
  \<open>find_optimal_hospital_route\<close> returns what the fast-mode call returns: a
  successful straight-line route from the hospital to the accident with the
  great-circle distance.  A later call whose provider succeeds obtains the
  graph from the provider and caches it.
\<close>

theorem provider_failure_falls_back:
  assumes miss: "graph_cache (cache_key ((accident_lat + hospital_lat) / 2)
                                        ((accident_lon + hospital_lon) / 2) radius_m) = None"
      and fails: "graph_from_point ((accident_lat + hospital_lat) / 2)
                                   ((accident_lon + hospital_lon) / 2) radius_m = None"
  shows "get_road_network graph_from_point graph_cache
            ((accident_lat + hospital_lat) / 2) ((accident_lon + hospital_lon) / 2) radius_m
          = (None, graph_cache)
       \<and> find_optimal_hospital_route graph_from_point nearest_nodes graph_cache
            accident_lat accident_lon hospital_lat hospital_lon radius_m False
          = (Some (RouteFound (fast_route accident_lat accident_lon hospital_lat hospital_lon)),
             graph_cache)
       \<and> find_optimal_hospital_route graph_from_point nearest_nodes graph_cache
            accident_lat accident_lon hospital_lat hospital_lon radius_m False
          = find_optimal_hospital_route graph_from_point nearest_nodes graph_cache
            accident_lat accident_lon hospital_lat hospital_lon radius_m True
       \<and> fast_mode (fast_route accident_lat accident_lon hospital_lat hospital_lon)
       \<and> path_nodes (fast_route accident_lat accident_lon hospital_lat hospital_lon) = []
       \<and> path_coordinates (fast_route accident_lat accident_lon hospital_lat hospital_lon)
          = [\<lparr>pt_lat = hospital_lat, pt_lon = hospital_lon\<rparr>,
             \<lparr>pt_lat = accident_lat, pt_lon = accident_lon\<rparr>]
       \<and> distance_km (fast_route accident_lat accident_lon hospital_lat hospital_lon)
          = haversine_distance accident_lat accident_lon hospital_lat hospital_lon
       \<and> (\<forall>retry G. retry ((accident_lat + hospital_lat) / 2)
                          ((accident_lon + hospital_lon) / 2) radius_m = Some G
            \<longrightarrow> get_road_network retry
                  (snd (get_road_network graph_from_point graph_cache
                          ((accident_lat + hospital_lat) / 2)
                          ((accident_lon + hospital_lon) / 2) radius_m))
                  ((accident_lat + hospital_lat) / 2) ((accident_lon + hospital_lon) / 2) radius_m
                = (Some G, graph_cache(cache_key ((accident_lat + hospital_lat) / 2)
                                         ((accident_lon + hospital_lon) / 2) radius_m \<mapsto> G)))"
  using miss fails
  by (simp add: get_road_network_def find_optimal_hospital_route_def fast_route_def Let_def)

theorem provider_failure_falls_back_witness:
  "[cache_key 0 0 5000 \<mapsto> detour] (cache_key ((13 + 13) / 2) ((80 + 80) / 2) 5000) = None
   \<and> no_network ((13 + 13) / 2) ((80 + 80) / 2) 5000 = None
   \<and> get_road_network no_network [cache_key 0 0 5000 \<mapsto> detour] ((13 + 13) / 2) ((80 + 80) / 2) 5000
      = (None, [cache_key 0 0 5000 \<mapsto> detour])
   \<and> find_optimal_hospital_route no_network no_locator [cache_key 0 0 5000 \<mapsto> detour]
        13 80 13 80 5000 False
      = (Some (RouteFound (fast_route 13 80 13 80)), [cache_key 0 0 5000 \<mapsto> detour])
   \<and> distance_km (fast_route 13 80 13 80) = 0"
proof -
  have miss: "[cache_key 0 0 5000 \<mapsto> detour] (cache_key ((13 + 13) / 2) ((80 + 80) / 2) 5000) = None"
    by (simp add: cache_key_def fixed4_def py_round_def)
  have fails: "no_network ((13 + 13) / 2) ((80 + 80) / 2) 5000 = None"
    by (simp add: no_network_def)
  have zero: "haversine_distance 13 80 13 80 = 0"
    by (simp add: haversine_distance_def radians_def atan2_def Let_def)
  note fb = provider_failure_falls_back[where graph_cache = "[cache_key 0 0 5000 \<mapsto> detour]"
      and graph_from_point = no_network and nearest_nodes = no_locator
      and accident_lat = 13 and hospital_lat = 13 and accident_lon = 80 and hospital_lon = 80
      and radius_m = 5000, OF miss fails]
  from fb have a: "get_road_network no_network [cache_key 0 0 5000 \<mapsto> detour]
         ((13 + 13) / 2) ((80 + 80) / 2) 5000 = (None, [cache_key 0 0 5000 \<mapsto> detour])"
    by (rule conjunct1)
  from fb have b: "find_optimal_hospital_route no_network no_locator [cache_key 0 0 5000 \<mapsto> detour]
        13 80 13 80 5000 False
      = (Some (RouteFound (fast_route 13 80 13 80)), [cache_key 0 0 5000 \<mapsto> detour])"
    by blast
  from fb zero have c: "distance_km (fast_route 13 80 13 80) = 0" by simp
  from miss fails a b c show ?thesis by (intro conjI)
qed

section \<open>Claims about dispatch\<close>

text \<open>
  Claim C3.  The alternates are positions 1 and 2 of the nearest-first list of
  routed candidates, whichever candidate was selected.  With the routed
  candidates Nearby (1.0 km, unrated), Apollo (1.2 km, rated 4.5) and Far
  (3.0 km, unrated) the score selects Apollo, and the alternates are Apollo and
  Far: the selected hospital is its own first alternate and the nearest
  hospital is not offered.
\<close>

theorem alternates_contain_selected:
  "map rh_hospital_name
     (hospitals_with_routes
        [WithRoute (candidate ''Far'' 3), WithRoute (candidate ''Apollo'' (12 / 10)),
         WithRoute (candidate ''Nearby'' 1)])
   = [''Nearby'', ''Apollo'', ''Far'']
   \<and> selected_index plain
        [WithRoute (candidate ''Far'' 3), WithRoute (candidate ''Apollo'' (12 / 10)),
         WithRoute (candidate ''Nearby'' 1)] apollo_ledger = Some 1
   \<and> (case fst (handle_accident plain
          [WithRoute (candidate ''Far'' 3), WithRoute (candidate ''Apollo'' (12 / 10)),
           WithRoute (candidate ''Nearby'' 1)] 13 80 ''acc'' apollo_ledger) of
        Dispatched r \<Rightarrow> (sh_name (resp_selected_hospital r), map alt_name (resp_alternative_hospitals r))
      | NoHospitals a \<Rightarrow> ([], [])
      | Failed e \<Rightarrow> ([], []))
     = (''Apollo'', [''Apollo'', ''Far''])"
  by (simp only: three_routed three_selected three_dispatched simp_thms)
     (simp add: candidate_def)

text \<open>
  Claim C8.  As stated the claim fails when the dataset bonus is in use: A and
  B are both 2.0 km away and both unrated, B has ICU availability, and B, the
  second candidate, is selected.
\<close>

theorem tie_broken_by_bonus:
  "rh_route_distance_km (candidate ''A'' 2) = rh_route_distance_km (candidate ''B'' 2)
   \<and> stored_rating init_database ''A'' = stored_rating init_database ''B''
   \<and> selected_index (icu_at ''B'') [WithRoute (candidate ''A'' 2), WithRoute (candidate ''B'' 2)]
        init_database = Some 1"
  by (simp only: tie_equal tie_bonus simp_thms)

text \<open>
  Claim C8, amended.  The selection scans the five nearest routed candidates
  in nearest-first order and replaces the current best only on a strictly
  greater score, so the selected candidate scores strictly higher than every
  candidate before it; hence a candidate that has the same route distance, the
  same rating and the same bonus as an earlier one is never selected over it.
  The score compared is the one the floating-point computation yields: the
  statement holds for every rounding of the arithmetic, and two candidates
  whose exact scores are equal but whose distances and ratings differ may be
  told apart by the rounding.
\<close>

theorem selection_keeps_first_maximum:
  assumes sel: "selected_index cfg entries d = Some k" and ik: "i < k"
  shows "k < length (take 5 (hospitals_with_routes entries))
       \<and> score_in cfg d (hospitals_with_routes entries ! i)
         < score_in cfg d (hospitals_with_routes entries ! k)
       \<and> \<not> (rh_route_distance_km (hospitals_with_routes entries ! i)
            = rh_route_distance_km (hospitals_with_routes entries ! k)
          \<and> stored_rating d (rh_hospital_name (hospitals_with_routes entries ! i))
            = stored_rating d (rh_hospital_name (hospitals_with_routes entries ! k))
          \<and> extra_of cfg (rh_hospital_name (hospitals_with_routes entries ! i))
            = extra_of cfg (rh_hospital_name (hospitals_with_routes entries ! k)))"
proof -
  let ?routed = "hospitals_with_routes entries"
  let ?top = "take 5 ?routed"
  let ?cands = "zip [0..<length ?top] ?top"
  from sel obtain b bs d' where run: "select_best cfg ?cands None (- 1) d = (Inr (b, bs), d')"
    and k: "k = (case b of Some x \<Rightarrow> best_index x | None \<Rightarrow> 0)"
    by (auto simp: selected_index_def Let_def split: prod.splits sum.splits if_splits)
  from k ik obtain x where b: "b = Some x" and kx: "k = best_index x" by (cases b) auto
  from select_best_first_maximum[OF run] b obtain pre k' h post info where
    split: "?cands = pre @ (k', h) # post"
    and bx: "b = Some \<lparr>best_index = k', best_hospital = h, best_rating_info = info\<rparr>"
    and v: "bs = score_in cfg d h"
    and before: "\<forall>x\<in>set pre. score_in cfg d (snd x) < bs"
    by auto
  from b bx kx have kk: "k' = k" by auto
  note es = enumerate_split[OF split[unfolded kk]]
  have klen: "k < length ?top" by (rule es(2))
  have hk: "h = ?routed ! k" using es(3) klen by simp
  have "(i, ?top ! i) \<in> set pre" using ik by (rule es(4))
  with before have "score_in cfg d (?top ! i) < bs" by fastforce
  moreover have "?top ! i = ?routed ! i" using ik klen by simp
  ultimately have lt: "score_in cfg d (?routed ! i) < score_in cfg d (?routed ! k)"
    using v hk by simp
  then have "\<not> (rh_route_distance_km (?routed ! i) = rh_route_distance_km (?routed ! k)
          \<and> stored_rating d (rh_hospital_name (?routed ! i))
            = stored_rating d (rh_hospital_name (?routed ! k))
          \<and> extra_of cfg (rh_hospital_name (?routed ! i))
            = extra_of cfg (rh_hospital_name (?routed ! k)))"
    by (auto simp: score_in_def)
  with klen lt show ?thesis by (intro conjI)
qed

theorem selection_keeps_first_maximum_witness:
  "selected_index plain
     [WithRoute (candidate ''Far'' 3), WithRoute (candidate ''Apollo'' (12 / 10)),
      WithRoute (candidate ''Nearby'' 1)] apollo_ledger = Some 1
   \<and> (0::nat) < 1
   \<and> score_in plain apollo_ledger (candidate ''Nearby'' 1)
       < score_in plain apollo_ledger (candidate ''Apollo'' (12 / 10))
   \<and> selected_index plain [WithRoute (candidate ''A'' 2), WithRoute (candidate ''B'' 2)]
        init_database = Some 0"
proof -
  have lt: "(0::nat) < 1" by simp
  from selection_keeps_first_maximum[OF three_selected lt, unfolded three_routed]
  have "score_in plain apollo_ledger (candidate ''Nearby'' 1)
       < score_in plain apollo_ledger (candidate ''Apollo'' (12 / 10))"
    by simp
  with three_selected lt tie_first show ?thesis by (intro conjI)
qed

end
